theory Spec2Isabelle
  imports Main
begin

section \<open>JavaScript values\<close>

text \<open>
  The store holds values of type \<^verbatim>\<open>any\<close>. The model keeps what the code can observe of
  a value: whether it is \<^verbatim>\<open>undefined\<close>, its truthiness (the operands of \<^verbatim>\<open>||\<close> and of
  \<^verbatim>\<open>if\<close>), whether \<^verbatim>\<open>typeof\<close> gives \<^verbatim>\<open>'object'\<close>, its identity when it is an array or object,
  and its JSON content. Numbers are integers (floating point and NaN are left out). An
  array or object is a plain one, with \<^verbatim>\<open>Array.prototype\<close> or \<^verbatim>\<open>Object.prototype\<close> as its
  prototype: its identity together with its JSON content (the code under study never
  mutates a stored value). An array or object that the program or \<^verbatim>\<open>JSON.parse\<close> creates
  has an identity \<open>Id n\<close>; the member it holds under a key has the identity \<open>Sub\<close> of its
  holder and that key. Functions are not values a caller passes: the one place where the
  code asks \<^verbatim>\<open>typeof value === 'function'\<close> has a type of its own, \<open>ValueOrFunction\<close>.
\<close>

datatype json =
    JNull
  | JBool bool
  | JNum int
  | JStr string
  | JArr "json list"
  | JObj "(string \<times> json) list"

datatype ident = Id nat | Sub ident string

datatype jsval =
    Undefined
  | Null
  | Boolean bool
  | Number int
  | Chars string
  | Array ident "json list"
  | Object ident "(string \<times> json) list"

text \<open>Truthiness, as \<^verbatim>\<open>||\<close>, \<^verbatim>\<open>!\<close> and \<^verbatim>\<open>if\<close> read a value.\<close>

fun truthy :: "jsval \<Rightarrow> bool" where
  "truthy Undefined = False"
| "truthy Null = False"
| "truthy (Boolean b) = b"
| "truthy (Number n) = (n \<noteq> 0)"
| "truthy (Chars s) = (s \<noteq> [])"
| "truthy (Array r xs) = True"
| "truthy (Object r ms) = True"

text \<open>\<^verbatim>\<open>typeof value === 'object' && value !== null\<close>.\<close>

fun is_object :: "jsval \<Rightarrow> bool" where
  "is_object (Array r xs) = True"
| "is_object (Object r ms) = True"
| "is_object _ = False"

fun is_array :: "jsval \<Rightarrow> bool" where
  "is_array (Array r xs) = True"
| "is_array _ = False"

text \<open>The value a JSON document becomes; an array or object gets the identity \<open>r\<close>.\<close>

fun from_json :: "ident \<Rightarrow> json \<Rightarrow> jsval" where
  "from_json r JNull = Null"
| "from_json r (JBool b) = Boolean b"
| "from_json r (JNum n) = Number n"
| "from_json r (JStr s) = Chars s"
| "from_json r (JArr xs) = Array r xs"
| "from_json r (JObj ms) = Object r ms"

text \<open>The JSON content of a value; \<^verbatim>\<open>undefined\<close> has none.\<close>

fun to_json :: "jsval \<Rightarrow> json option" where
  "to_json Undefined = None"
| "to_json Null = Some JNull"
| "to_json (Boolean b) = Some (JBool b)"
| "to_json (Number n) = Some (JNum n)"
| "to_json (Chars s) = Some (JStr s)"
| "to_json (Array r xs) = Some (JArr xs)"
| "to_json (Object r ms) = Some (JObj ms)"

text \<open>The decimal numeral of a natural number: the property key of an array index.\<close>

definition digit_char :: "nat \<Rightarrow> char" where
  "digit_char d = ''0123456789'' ! d"

function encode_nat :: "nat \<Rightarrow> string" where
  "encode_nat n = (if n < 10 then [digit_char n] else encode_nat (n div 10) @ [digit_char (n mod 10)])"
  by pat_completeness auto
termination
  by (relation "measure id") auto

declare encode_nat.simps [simp del]


section \<open>Objects used as dictionaries\<close>

text \<open>
  The code keeps its dictionaries (\<^verbatim>\<open>state\<close>, \<^verbatim>\<open>rerendersToTrigger\<close>, \<^verbatim>\<open>objectCache\<close>,
  \<^verbatim>\<open>fallbackMemory\<close>) in object literals \<^verbatim>\<open>{}\<close>, which inherit from \<^verbatim>\<open>Object.prototype\<close>. Reading
  a key the dictionary does not hold itself goes up the prototype chain, so a key that
  names a member of \<^verbatim>\<open>Object.prototype\<close> reads as that member, and assigning to
  \<^verbatim>\<open>__proto__\<close> calls the setter \<^verbatim>\<open>Object.prototype\<close> has for it: the setter replaces the
  prototype when the value is an object or \<^verbatim>\<open>null\<close> and does nothing otherwise.

  What a property read gives is a \<open>property\<close>: a plain value, or a member of the
  platform's prototypes, named by its path (\<^verbatim>\<open>Object.prototype.toString\<close>, a function, or
  \<^verbatim>\<open>Object.prototype\<close>, the prototype itself). A member is truthy and is never \<^verbatim>\<open>undefined\<close>.
  The names are those of the string-keyed properties of \<^verbatim>\<open>Object.prototype\<close> and, for an
  array that became a prototype, of \<^verbatim>\<open>Array.prototype\<close> (ECMAScript 2023), on a platform
  nobody has added properties to.
\<close>

datatype property = Plain jsval | Member string

fun is_truthy :: "property \<Rightarrow> bool" where
  "is_truthy (Plain v) = truthy v"
| "is_truthy (Member n) = True"

text \<open>\<^verbatim>\<open>a || b\<close>: the left operand when it is truthy, the right one otherwise.\<close>

definition js_or :: "property \<Rightarrow> property \<Rightarrow> property" where
  "js_or a b = (if is_truthy a then a else b)"

definition object_prototype_names :: "string list" where
  "object_prototype_names =
     [''constructor'', ''__defineGetter__'', ''__defineSetter__'', ''hasOwnProperty'',
      ''__lookupGetter__'', ''__lookupSetter__'', ''isPrototypeOf'', ''propertyIsEnumerable'',
      ''toString'', ''valueOf'', ''__proto__'', ''toLocaleString'']"

definition array_prototype_names :: "string list" where
  "array_prototype_names =
     [''length'', ''constructor'', ''at'', ''concat'', ''copyWithin'', ''fill'', ''find'',
      ''findIndex'', ''findLast'', ''findLastIndex'', ''lastIndexOf'', ''pop'', ''push'',
      ''reverse'', ''shift'', ''unshift'', ''slice'', ''sort'', ''splice'', ''includes'',
      ''indexOf'', ''join'', ''keys'', ''entries'', ''values'', ''forEach'', ''filter'',
      ''flat'', ''flatMap'', ''map'', ''every'', ''some'', ''reduce'', ''reduceRight'',
      ''toReversed'', ''toSorted'', ''toSpliced'', ''with'', ''toLocaleString'', ''toString'']"

text \<open>
  The prototype of a dictionary: \<^verbatim>\<open>Object.prototype\<close>, as the literal \<^verbatim>\<open>{}\<close> gives it, or the
  value an assignment to \<^verbatim>\<open>__proto__\<close> put in its place (an array, an object or \<^verbatim>\<open>null\<close>).
\<close>

datatype prototype = Object_prototype | Replaced jsval

record dict =
  own :: "string \<rightharpoonup> jsval"
  proto :: prototype

text \<open>The object literal \<^verbatim>\<open>{}\<close>.\<close>

definition new_dict :: dict where
  "new_dict = \<lparr>own = Map.empty, proto = Object_prototype\<rparr>"

text \<open>
  The properties a plain array or object holds itself: the members of an object (the
  last one when a key occurs twice, as \<^verbatim>\<open>JSON.parse\<close> builds it), the elements and the
  \<^verbatim>\<open>length\<close> of an array.
\<close>

fun own_property :: "jsval \<Rightarrow> string \<Rightarrow> jsval option" where
  "own_property (Object r ms) key = map_option (from_json (Sub r key)) (map_of (rev ms) key)"
| "own_property (Array r xs) key =
     (if key = ''length'' then Some (Number (int (length xs)))
      else map_option (from_json (Sub r key))
             (map_of (zip (map encode_nat [0..<length xs]) xs) key))"
| "own_property v key = None"

text \<open>
  What \<^verbatim>\<open>Object.prototype\<close> gives for a key: the getter of \<^verbatim>\<open>__proto__\<close> gives the prototype
  of the object that is read, the other names give functions.
\<close>

definition object_prototype_get :: "property \<Rightarrow> string \<Rightarrow> property" where
  "object_prototype_get prototype_of_receiver key =
     (if key = ''__proto__'' then prototype_of_receiver
      else if key \<in> set object_prototype_names then Member (''Object.prototype.'' @ key)
      else Plain Undefined)"

text \<open>\<^verbatim>\<open>obj[key]\<close>: the dictionary's own property, or what the prototype chain gives.\<close>

definition js_get :: "dict \<Rightarrow> string \<Rightarrow> property" where
  "js_get obj key =
     (case own obj key of
        Some v \<Rightarrow> Plain v
      | None \<Rightarrow>
          (case proto obj of
             Object_prototype \<Rightarrow> object_prototype_get (Member ''Object.prototype'') key
           | Replaced p \<Rightarrow>
               (case own_property p key of
                  Some v \<Rightarrow> Plain v
                | None \<Rightarrow>
                    if \<not> is_object p then Plain Undefined
                    else if is_array p \<and> key \<in> set array_prototype_names
                    then Member (''Array.prototype.'' @ key)
                    else object_prototype_get (Plain p) key)))"

text \<open>
  Whether an assignment to \<^verbatim>\<open>__proto__\<close> reaches the setter of \<^verbatim>\<open>Object.prototype\<close>: it does
  unless the dictionary or its prototype holds a property of that name itself, or the
  prototype is \<^verbatim>\<open>null\<close>.
\<close>

definition reaches_setter :: "dict \<Rightarrow> bool" where
  "reaches_setter obj =
     (own obj ''__proto__'' = None \<and>
      (case proto obj of
         Object_prototype \<Rightarrow> True
       | Replaced p \<Rightarrow> is_object p \<and> own_property p ''__proto__'' = None))"

text \<open>
  \<^verbatim>\<open>obj[key] = value\<close>. Every property the chain can hold is a writable data property,
  but for the accessor \<^verbatim>\<open>__proto__\<close>, so the assignment creates or overwrites the
  dictionary's own property and never throws.
\<close>

definition js_set :: "dict \<Rightarrow> string \<Rightarrow> jsval \<Rightarrow> dict" where
  "js_set obj key v =
     (if key = ''__proto__'' \<and> reaches_setter obj
      then (if is_object v \<or> v = Null then obj\<lparr>proto := Replaced v\<rparr> else obj)
      else obj\<lparr>own := (own obj)(key \<mapsto> v)\<rparr>)"

section \<open>The state manager\<close>

text \<open>
  A \<^verbatim>\<open>RenderFunction\<close> is compared by identity (\<^verbatim>\<open>s !== subscription\<close>), so it is modelled by
  its identity. Calling it is an effect outside the manager: the model records each call,
  with the argument \<^verbatim>\<open>{ lastValue, newValue }\<close>, in a trace. The callback the hook registers only
  asks React for another render. A callback that throws, or that calls back into the
  manager while it is being notified, is outside the model.
\<close>

type_synonym RenderFunction = nat

record call =
  callback :: RenderFunction
  lastValue :: property
  newValue :: jsval

text \<open>
  \<^verbatim>\<open>rerendersToTrigger\<close> is only ever assigned arrays, at keys that read as falsy, so its
  prototype stays \<^verbatim>\<open>Object.prototype\<close> and it is a map of its own properties. A key it
  does not hold reads as a member of \<^verbatim>\<open>Object.prototype\<close> when it names one.
\<close>

record StateManager =
  state :: dict
  rerendersToTrigger :: "string \<rightharpoonup> RenderFunction list"

datatype error = TypeError

datatype subscriptions = No_list | Inherited_member | List "RenderFunction list"

text \<open>\<^verbatim>\<open>this.rerendersToTrigger[key]\<close>.\<close>

definition subscriptions_at :: "StateManager \<Rightarrow> string \<Rightarrow> subscriptions" where
  "subscriptions_at m key =
     (case rerendersToTrigger m key of
        Some fs \<Rightarrow> List fs
      | None \<Rightarrow> if key \<in> set object_prototype_names then Inherited_member else No_list)"

definition new_StateManager :: StateManager where
  "new_StateManager = \<lparr>state = new_dict, rerendersToTrigger = Map.empty\<rparr>"

text \<open>\<^verbatim>\<open>Array.prototype.forEach\<close>, threading the effect of each call through a state.\<close>

fun forEach :: "'a list \<Rightarrow> ('a \<Rightarrow> 't \<Rightarrow> 't) \<Rightarrow> 't \<Rightarrow> 't" where
  "forEach [] f t = t"
| "forEach (x # xs) f t = forEach xs f (f x t)"

definition invoke :: "RenderFunction \<Rightarrow> property \<Rightarrow> jsval \<Rightarrow> call list \<Rightarrow> call list" where
  "invoke render lv nv trace = trace @ [\<lparr>callback = render, lastValue = lv, newValue = nv\<rparr>]"

text \<open>
  \<^verbatim>\<open>write(key, value)\<close>, named \<open>write_value\<close> since \<open>write\<close> is a keyword of Isabelle:
  returns the calls it made, in the order it made them, the error it threw if it threw
  one, and the manager it leaves. The optional chaining \<^verbatim>\<open>?.\<close> returns for a key that
  reads as \<^verbatim>\<open>undefined\<close>; for a key that reads as a member of \<^verbatim>\<open>Object.prototype\<close> the call
  of its \<^verbatim>\<open>forEach\<close>, which is \<^verbatim>\<open>undefined\<close>, throws a \<^verbatim>\<open>TypeError\<close>, after the assignment.
\<close>

definition write_value ::
  "StateManager \<Rightarrow> string \<Rightarrow> jsval \<Rightarrow> call list \<times> error option \<times> StateManager" where
  "write_value m key v =
     (let lv = js_get (state m) key;
          m' = m\<lparr>state := js_set (state m) key v\<rparr>
      in (case subscriptions_at m' key of
            No_list \<Rightarrow> ([], None, m')
          | Inherited_member \<Rightarrow> ([], Some TypeError, m')
          | List renders \<Rightarrow> (forEach renders (\<lambda>render. invoke render lv v) [], None, m')))"

definition read :: "StateManager \<Rightarrow> dict" where
  "read m = state m"

text \<open>
  \<^verbatim>\<open>watchForUpdates\<close>: creates the list when the key reads as falsy, then pushes. A key that
  reads as a member of \<^verbatim>\<open>Object.prototype\<close> is truthy and has no \<^verbatim>\<open>push\<close>: the call throws a
  \<^verbatim>\<open>TypeError\<close> and leaves the manager as it was.
\<close>

definition watchForUpdates ::
  "StateManager \<Rightarrow> string \<Rightarrow> RenderFunction \<Rightarrow> error + StateManager" where
  "watchForUpdates m key rerenderFunction =
     (let m1 = (case subscriptions_at m key of
                  No_list \<Rightarrow> m\<lparr>rerendersToTrigger := (rerendersToTrigger m)(key \<mapsto> [])\<rparr>
                | Inherited_member \<Rightarrow> m
                | List fs \<Rightarrow> m)
      in (case subscriptions_at m1 key of
            List fs \<Rightarrow>
              Inr (m1\<lparr>rerendersToTrigger :=
                        (rerendersToTrigger m1)(key \<mapsto> fs @ [rerenderFunction])\<rparr>)
          | Inherited_member \<Rightarrow> Inl TypeError
          | No_list \<Rightarrow> Inl TypeError))"

text \<open>
  \<^verbatim>\<open>endWatch\<close>: \<^verbatim>\<open>this.rerendersToTrigger[key].filter(...)\<close> has no guard, so a key without a
  list makes the call throw a \<^verbatim>\<open>TypeError\<close>: \<^verbatim>\<open>undefined\<close> has no \<^verbatim>\<open>filter\<close>, and neither has
  a member of \<^verbatim>\<open>Object.prototype\<close>.
\<close>

definition endWatch :: "StateManager \<Rightarrow> string \<Rightarrow> RenderFunction \<Rightarrow> error + StateManager" where
  "endWatch m key subscription =
     (case rerendersToTrigger m key of
        None \<Rightarrow> Inl TypeError
      | Some fs \<Rightarrow>
          Inr (m\<lparr>rerendersToTrigger :=
                 (rerendersToTrigger m)(key \<mapsto> filter (\<lambda>s. s \<noteq> subscription) fs)\<rparr>))"

text \<open>The callbacks registered for a key, in registration order (none when it has no list).\<close>

definition subscribers :: "StateManager \<Rightarrow> string \<Rightarrow> RenderFunction list" where
  "subscribers m key = (case rerendersToTrigger m key of None \<Rightarrow> [] | Some fs \<Rightarrow> fs)"

text \<open>Registering the same callback \<open>n\<close> times in a row; the first throw ends the run.\<close>

fun watchForUpdates_times ::
  "nat \<Rightarrow> StateManager \<Rightarrow> string \<Rightarrow> RenderFunction \<Rightarrow> error + StateManager" where
  "watchForUpdates_times 0 m key f = Inr m"
| "watchForUpdates_times (Suc n) m key f =
     (case watchForUpdates m key f of
        Inl e \<Rightarrow> Inl e
      | Inr m' \<Rightarrow> watchForUpdates_times n m' key f)"

section \<open>The platform: JSON, the storage backend, object identities\<close>

text \<open>
  \<^verbatim>\<open>JSON.parse\<close>, \<^verbatim>\<open>JSON.stringify\<close> and \<^verbatim>\<open>window.localStorage\<close> belong to the platform, not
  to the repository. The runtime carries them: \<open>decode\<close> and \<open>encode\<close> are the platform's
  JSON text codec (\<open>decode\<close> gives \<open>None\<close> where \<^verbatim>\<open>JSON.parse\<close> throws a \<^verbatim>\<open>SyntaxError\<close>),
  \<open>localStorage\<close> is the content of \<^verbatim>\<open>window.localStorage\<close>, \<open>fallbackMemory\<close> holds the own
  properties of the module's \<^verbatim>\<open>fallbackMemory\<close> (a property can hold \<^verbatim>\<open>undefined\<close>, which is
  \<open>None\<close>), and \<open>nextObject\<close> is the identity the next allocated object gets. The
  properties below hold for every codec; a concrete one, \<open>json_decode\<close> and
  \<open>json_encode\<close>, covers the JSON texts without whitespace, fractions, exponents and
  \<^verbatim>\<open>\u\<close> escapes, and serves the concrete runs.
\<close>

record Runtime =
  decode :: "string \<Rightarrow> json option"
  encode :: "json \<Rightarrow> string"
  isBrowser :: bool
  localStorage :: "string \<rightharpoonup> string"
  fallbackMemory :: "string \<rightharpoonup> string option"
  nextObject :: nat

text \<open>\<^verbatim>\<open>JSON.stringify(value)\<close>: a text, or \<^verbatim>\<open>undefined\<close> (\<open>None\<close>) for \<^verbatim>\<open>undefined\<close>.\<close>

definition JSON_stringify :: "Runtime \<Rightarrow> jsval \<Rightarrow> string option" where
  "JSON_stringify rt v = map_option (encode rt) (to_json v)"

text \<open>\<^verbatim>\<open>JSON.parse(text)\<close>: \<open>None\<close> when it throws; a parsed array or object is a new one.\<close>

definition JSON_parse :: "Runtime \<Rightarrow> string \<Rightarrow> (jsval \<times> Runtime) option" where
  "JSON_parse rt text =
     (case decode rt text of
        None \<Rightarrow> None
      | Some j \<Rightarrow>
          (let v = from_json (Id (nextObject rt)) j
           in Some (v, if is_object v then rt\<lparr>nextObject := Suc (nextObject rt)\<rparr> else rt)))"

text \<open>
  What \<^verbatim>\<open>this.storage.getItem\<close> gives: a text; nothing (\<^verbatim>\<open>null\<close> or \<^verbatim>\<open>undefined\<close>); or, from
  \<^verbatim>\<open>fallbackMemory\<close> at a key it does not hold, the member of \<^verbatim>\<open>Object.prototype\<close> of that
  name.
\<close>

datatype item = Absent | Inherited string | Text string

text \<open>
  The \<^verbatim>\<open>_Storage\<close> the adaptor's constructor picks. In a browser it is \<^verbatim>\<open>localStorage\<close>, whose
  methods take every key and which stores the string \<^verbatim>\<open>"undefined"\<close> when handed
  \<^verbatim>\<open>undefined\<close>. Elsewhere it is \<^verbatim>\<open>fallbackStorage\<close>, which reads and assigns properties
  of \<^verbatim>\<open>fallbackMemory\<close>: it is only ever assigned strings and \<^verbatim>\<open>undefined\<close>, which the setter
  of \<^verbatim>\<open>__proto__\<close> ignores.
\<close>

definition storage_getItem :: "Runtime \<Rightarrow> string \<Rightarrow> item" where
  "storage_getItem rt key =
     (if isBrowser rt
      then (case localStorage rt key of None \<Rightarrow> Absent | Some t \<Rightarrow> Text t)
      else (case fallbackMemory rt key of
              Some (Some t) \<Rightarrow> Text t
            | Some None \<Rightarrow> Absent
            | None \<Rightarrow> if key \<in> set object_prototype_names then Inherited key else Absent))"

definition storage_setItem :: "Runtime \<Rightarrow> string \<Rightarrow> string option \<Rightarrow> Runtime" where
  "storage_setItem rt key text =
     (if isBrowser rt
      then rt\<lparr>localStorage :=
                (localStorage rt)(key \<mapsto> (case text of Some t \<Rightarrow> t | None \<Rightarrow> ''undefined''))\<rparr>
      else if key = ''__proto__'' \<and> fallbackMemory rt key = None then rt
      else rt\<lparr>fallbackMemory := (fallbackMemory rt)(key \<mapsto> text)\<rparr>)"

subsection \<open>A concrete JSON codec\<close>

text \<open>
  \<open>json_encode\<close> writes a document as \<^verbatim>\<open>JSON.stringify\<close> does, without whitespace, escaping the
  double quote and the backslash in strings. \<open>json_decode\<close> reads such texts and rejects
  everything else; its fuel is the length of the text and one more, which is enough for
  every text \<open>json_encode\<close> writes (\<open>json_decode_encode\<close> below).
\<close>

definition encode_int :: "int \<Rightarrow> string" where
  "encode_int i = (if i < 0 then CHR ''-'' # encode_nat (nat (- i)) else encode_nat (nat i))"

fun encode_chars :: "string \<Rightarrow> string" where
  "encode_chars [] = []"
| "encode_chars (c # cs) =
     (if c = CHR 0x22 \<or> c = CHR 0x5C then CHR 0x5C # c # encode_chars cs else c # encode_chars cs)"

definition encode_string :: "string \<Rightarrow> string" where
  "encode_string s = CHR 0x22 # encode_chars s @ [CHR 0x22]"

fun separate :: "string \<Rightarrow> string list \<Rightarrow> string" where
  "separate sep [] = []"
| "separate sep [x] = x"
| "separate sep (x # y # ys) = x @ sep @ separate sep (y # ys)"

fun json_encode :: "json \<Rightarrow> string" where
  "json_encode JNull = ''null''"
| "json_encode (JBool b) = (if b then ''true'' else ''false'')"
| "json_encode (JNum i) = encode_int i"
| "json_encode (JStr s) = encode_string s"
| "json_encode (JArr xs) = ''['' @ separate '','' (map json_encode xs) @ '']''"
| "json_encode (JObj ms) =
     ''{'' @ separate '','' (map (\<lambda>(k, x). encode_string k @ '':'' @ json_encode x) ms) @ ''}''"

definition is_digit :: "char \<Rightarrow> bool" where
  "is_digit c = (c \<in> set ''0123456789'')"

definition digit_value :: "char \<Rightarrow> nat" where
  "digit_value c = of_char c - 48"

definition decode_nat :: "string \<Rightarrow> nat" where
  "decode_nat ds = foldl (\<lambda>n c. 10 * n + digit_value c) 0 ds"

definition starts_with :: "string \<Rightarrow> string \<Rightarrow> bool" where
  "starts_with p s = (take (length p) s = p)"

definition after :: "string \<Rightarrow> string \<Rightarrow> string" where
  "after p s = drop (length p) s"

fun decode_chars :: "string \<Rightarrow> (string \<times> string) option" where
  "decode_chars [] = None"
| "decode_chars [c] = (if c = CHR 0x22 then Some ([], []) else None)"
| "decode_chars (c # e # cs) =
     (if c = CHR 0x22 then Some ([], e # cs)
      else if c = CHR 0x5C then
        (if e = CHR 0x22 \<or> e = CHR 0x5C
         then (case decode_chars cs of None \<Rightarrow> None | Some (s, r) \<Rightarrow> Some (e # s, r))
         else None)
      else (case decode_chars (e # cs) of None \<Rightarrow> None | Some (s, r) \<Rightarrow> Some (c # s, r)))"

definition decode_number :: "string \<Rightarrow> (json \<times> string) option" where
  "decode_number s =
     (let neg = (s \<noteq> [] \<and> hd s = CHR ''-'');
          body = (if neg then tl s else s);
          ds = takeWhile is_digit body;
          r = dropWhile is_digit body
      in if ds = [] \<or> (length ds > 1 \<and> hd ds = CHR ''0'') then None
         else Some (JNum (if neg then - int (decode_nat ds) else int (decode_nat ds)), r))"

fun decode_value :: "nat \<Rightarrow> string \<Rightarrow> (json \<times> string) option"
  and decode_elements :: "nat \<Rightarrow> string \<Rightarrow> (json list \<times> string) option"
  and decode_members :: "nat \<Rightarrow> string \<Rightarrow> ((string \<times> json) list \<times> string) option" where
  "decode_value 0 s = None"
| "decode_value (Suc n) s =
     (if starts_with ''null'' s then Some (JNull, after ''null'' s)
      else if starts_with ''true'' s then Some (JBool True, after ''true'' s)
      else if starts_with ''false'' s then Some (JBool False, after ''false'' s)
      else if starts_with ''[]'' s then Some (JArr [], after ''[]'' s)
      else if starts_with ''{}'' s then Some (JObj [], after ''{}'' s)
      else if starts_with ''['' s then
        map_option (\<lambda>(xs, r). (JArr xs, r)) (decode_elements n (after ''['' s))
      else if starts_with ''{'' s then
        map_option (\<lambda>(ms, r). (JObj ms, r)) (decode_members n (after ''{'' s))
      else if starts_with [CHR 0x22] s then
        map_option (\<lambda>(t, r). (JStr t, r)) (decode_chars (after [CHR 0x22] s))
      else decode_number s)"
| "decode_elements 0 s = None"
| "decode_elements (Suc n) s =
     (case decode_value n s of
        None \<Rightarrow> None
      | Some (x, r) \<Rightarrow>
          if starts_with '']'' r then Some ([x], after '']'' r)
          else if starts_with '','' r then
            map_option (\<lambda>(xs, r'). (x # xs, r')) (decode_elements n (after '','' r))
          else None)"
| "decode_members 0 s = None"
| "decode_members (Suc n) s =
     (if starts_with [CHR 0x22] s then
        (case decode_chars (after [CHR 0x22] s) of
           None \<Rightarrow> None
         | Some (k, r) \<Rightarrow>
             if starts_with '':'' r then
               (case decode_value n (after '':'' r) of
                  None \<Rightarrow> None
                | Some (x, r') \<Rightarrow>
                    if starts_with ''}'' r' then Some ([(k, x)], after ''}'' r')
                    else if starts_with '','' r' then
                      map_option (\<lambda>(ms, r''). ((k, x) # ms, r'')) (decode_members n (after '','' r'))
                    else None)
             else None)
      else None)"

definition json_decode :: "string \<Rightarrow> json option" where
  "json_decode s =
     (case decode_value (Suc (length s)) s of
        Some (x, []) \<Rightarrow> Some x
      | _ \<Rightarrow> None)"

text \<open>What may follow a number in a text: the end, or a character that is no digit.\<close>

definition terminated :: "string \<Rightarrow> bool" where
  "terminated r = (r = [] \<or> \<not> is_digit (hd r))"

text \<open>A browser with an empty \<^verbatim>\<open>localStorage\<close>.\<close>

definition browser :: Runtime where
  "browser =
     \<lparr>decode = json_decode, encode = json_encode, isBrowser = True,
      localStorage = Map.empty, fallbackMemory = Map.empty, nextObject = 0\<rparr>"

section \<open>The storage adaptor\<close>

record StorageAdaptor =
  prefix :: "string option"
  objectCache :: dict

definition new_StorageAdaptor :: "string option \<Rightarrow> StorageAdaptor" where
  "new_StorageAdaptor p = \<lparr>prefix = p, objectCache = new_dict\<rparr>"

text \<open>\<^verbatim>\<open>this.prefix ? `${this.prefix}-${key}` : key\<close>; the empty prefix is falsy.\<close>

definition getStorageKey :: "StorageAdaptor \<Rightarrow> string \<Rightarrow> string" where
  "getStorageKey a key =
     (case prefix a of
        None \<Rightarrow> key
      | Some p \<Rightarrow> if p \<noteq> [] then p @ ''-'' @ key else key)"

text \<open>
  \<^verbatim>\<open>getItem\<close>: the result, the adaptor and the runtime after the call. The \<^verbatim>\<open>catch\<close> is the
  \<open>None\<close> branch of \<open>JSON_parse\<close>; \<^verbatim>\<open>item ? JSON.parse(item) : undefined\<close> skips the parse
  for an absent and for an empty text. A member of \<^verbatim>\<open>Object.prototype\<close> read from
  \<^verbatim>\<open>fallbackMemory\<close> is truthy and \<^verbatim>\<open>JSON.parse\<close> throws on what it converts to (the source
  text of a native function, or \<^verbatim>\<open>[object Object]\<close>): the \<^verbatim>\<open>catch\<close> again.
\<close>

definition getItem ::
  "Runtime \<Rightarrow> StorageAdaptor \<Rightarrow> string \<Rightarrow> property \<times> StorageAdaptor \<times> Runtime" where
  "getItem rt a key =
     (let storageKey = getStorageKey a key
      in if is_truthy (js_get (objectCache a) storageKey)
         then (js_get (objectCache a) storageKey, a, rt)
         else
           (case storage_getItem rt storageKey of
              Absent \<Rightarrow> (Plain Undefined, a, rt)
            | Inherited n \<Rightarrow> (Plain Undefined, a, rt)
            | Text item \<Rightarrow>
                if item = [] then (Plain Undefined, a, rt)
                else
                  (case JSON_parse rt item of
                     None \<Rightarrow> (Plain Undefined, a, rt)
                   | Some (parsedItem, rt') \<Rightarrow>
                       if is_object parsedItem
                       then (Plain parsedItem,
                             a\<lparr>objectCache := js_set (objectCache a) storageKey parsedItem\<rparr>,
                             rt')
                       else (Plain parsedItem, a, rt'))))"

definition setItem :: "Runtime \<Rightarrow> StorageAdaptor \<Rightarrow> string \<Rightarrow> jsval \<Rightarrow> StorageAdaptor \<times> Runtime" where
  "setItem rt a key v =
     (let storageKey = getStorageKey a key;
          a' = (if is_object v then a\<lparr>objectCache := js_set (objectCache a) storageKey v\<rparr>
                else a)
      in (a', storage_setItem rt storageKey (JSON_stringify rt v)))"



section \<open>The consumer hook\<close>

text \<open>
  One activation of \<^verbatim>\<open>useSharedState\<close> is one render of the component that calls it. What
  React keeps for the component between renders is the \<open>Consumer\<close>: the value of
  \<^verbatim>\<open>useMemo(() => initialValue, [])\<close> and the adaptor of \<^verbatim>\<open>useStorage()\<close>, both computed at the
  first render. The first activation is the one with no \<open>Consumer\<close> yet. The subscription
  effect runs after the render has returned and only touches the subscriber lists, which
  the value never reads (at a key that names a member of \<^verbatim>\<open>Object.prototype\<close> its
  \<^verbatim>\<open>watchForUpdates\<close> throws), and \<^verbatim>\<open>useDebouncedValue\<close> is not among the sources: both are
  left out.
\<close>

record Params =
  key :: string
  initialValue :: jsval
  shouldSaveToStorage :: bool

record Consumer =
  fixedInitialValue :: jsval
  storage :: StorageAdaptor

record World =
  manager :: StateManager
  runtime :: Runtime

datatype ValueOrFunction = Value jsval | Transform "property \<Rightarrow> jsval"

text \<open>The render: the \<open>value\<close> of the returned interface, and what the render changed.\<close>

definition useSharedState ::
  "Params \<Rightarrow> Consumer option \<Rightarrow> World \<Rightarrow> property \<times> Consumer \<times> World" where
  "useSharedState params memo w =
     (let c = (case memo of
                 None \<Rightarrow>
                   \<lparr>fixedInitialValue = initialValue params, storage = new_StorageAdaptor None\<rparr>
               | Some c \<Rightarrow> c);
          (storedValue, a, rt) =
            (if shouldSaveToStorage params then getItem (runtime w) (storage c) (key params)
             else (Plain Undefined, storage c, runtime w));
          val = js_or (js_or (js_get (read (manager w)) (key params)) storedValue)
                  (Plain (fixedInitialValue c))
      in (val, c\<lparr>storage := a\<rparr>, w\<lparr>runtime := rt\<rparr>))"

text \<open>
  \<^verbatim>\<open>setValue\<close> of the interface an activation with \<open>params\<close> returned: the closure \<^verbatim>\<open>update\<close>.
  It returns the calls the manager made, the error thrown if \<^verbatim>\<open>write\<close> threw (then
  \<^verbatim>\<open>storage.setItem\<close> is not reached), the consumer and the world.
\<close>

definition update ::
  "Params \<Rightarrow> Consumer \<Rightarrow> ValueOrFunction \<Rightarrow> World
     \<Rightarrow> call list \<times> error option \<times> Consumer \<times> World" where
  "update params c x w =
     (let v = (case x of
                 Transform f \<Rightarrow> f (js_get (read (manager w)) (key params))
               | Value v \<Rightarrow> v);
          (trace, thrown, m) = write_value (manager w) (key params) v
      in (case thrown of
            Some e \<Rightarrow> (trace, Some e, c, \<lparr>manager = m, runtime = runtime w\<rparr>)
          | None \<Rightarrow>
              (let (a, rt) =
                     (if shouldSaveToStorage params
                      then setItem (runtime w) (storage c) (key params) v
                      else (storage c, runtime w))
               in (trace, None, c\<lparr>storage := a\<rparr>, \<lparr>manager = m, runtime = rt\<rparr>))))"

text \<open>\<^verbatim>\<open>clear\<close> of the same interface: \<^verbatim>\<open>update(initialValue)\<close>, with that activation's parameter.\<close>

definition clear ::
  "Params \<Rightarrow> Consumer \<Rightarrow> World \<Rightarrow> call list \<times> error option \<times> Consumer \<times> World" where
  "clear params c w = update params c (Value (initialValue params)) w"

text \<open>A reload: the in-memory state is gone, the backend keeps its content.\<close>

definition reload :: "World \<Rightarrow> World" where
  "reload w = \<lparr>manager = new_StateManager, runtime = runtime w\<rparr>"

text \<open>
  The value as a JSON round trip rebuilds it: a primitive is itself, an array or object
  is a new one, at identity \<open>r\<close>, with the same content.
\<close>

fun copy_at :: "ident \<Rightarrow> jsval \<Rightarrow> jsval" where
  "copy_at r (Array r' xs) = Array r xs"
| "copy_at r (Object r' ms) = Object r ms"
| "copy_at r v = v"

section \<open>Concrete runs\<close>

text \<open>The managers, backends and renders the concrete statements below are about.\<close>

text \<open>
  The manager after a list of \<^verbatim>\<open>watchForUpdates\<close> calls; a call that throws leaves the manager
  as it was.
\<close>

fun registered :: "(string \<times> RenderFunction) list \<Rightarrow> StateManager \<Rightarrow> StateManager" where
  "registered [] m = m"
| "registered ((k, f) # rs) m =
     (case watchForUpdates m k f of
        Inl e \<Rightarrow> registered rs m
      | Inr m' \<Rightarrow> registered rs m')"

definition busy_manager :: StateManager where
  "busy_manager =
     registered [(''other'', 3)]
       (snd (snd (write_value
          (registered [(''k'', 1), (''k'', 2)] new_StateManager) ''other'' (Number 1))))"

definition dup_watchers :: StateManager where
  "dup_watchers = registered [(''k'', 1), (''k'', 2), (''k'', 1)] new_StateManager"

text \<open>
  One adaptor stores an object under \<^verbatim>\<open>k\<close>; a second adaptor of the same browser then stores
  \<^verbatim>\<open>undefined\<close> under \<^verbatim>\<open>k\<close>. The pair is the first adaptor and the runtime after both calls.
\<close>

definition stale_cache :: "StorageAdaptor \<times> Runtime" where
  "stale_cache =
     (let (a, rt1) = setItem browser (new_StorageAdaptor None) ''k''
                       (Object (Id 7) [(''a'', JNum 1)]);
          (b, rt2) = setItem rt1 (new_StorageAdaptor None) ''k'' Undefined
      in (a, rt2))"


definition malformed_backend :: Runtime where
  "malformed_backend =
     browser\<lparr>localStorage := [''k'' \<mapsto> ''{oops'', ''toString'' \<mapsto> ''{oops'']\<rparr>"


text \<open>The first render of a consumer in a browser with nothing stored.\<close>

definition first_render :: "Params \<Rightarrow> Consumer \<times> World" where
  "first_render params =
     snd (useSharedState params None \<lparr>manager = new_StateManager, runtime = browser\<rparr>)"

text \<open>First render, then \<^verbatim>\<open>setValue(v)\<close> of the interface it returned.\<close>

definition after_setValue :: "Params \<Rightarrow> jsval \<Rightarrow> Consumer \<times> World" where
  "after_setValue params v =
     (let cw = first_render params
      in snd (snd (update params (fst cw) (Value v) (snd cw))))"

definition persisted_params :: "string \<Rightarrow> Params" where
  "persisted_params k = \<lparr>key = k, initialValue = Number 5, shouldSaveToStorage = True\<rparr>"

text \<open>First render, \<^verbatim>\<open>setValue(v)\<close>, reload, and the value of a new consumer's first render.\<close>

definition set_then_reload :: "string \<Rightarrow> jsval \<Rightarrow> property" where
  "set_then_reload k v =
     fst (useSharedState (persisted_params k) None
            (reload (snd (after_setValue (persisted_params k) v))))"

definition flag_params :: Params where
  "flag_params = \<lparr>key = ''open'', initialValue = Boolean True, shouldSaveToStorage = False\<rparr>"

definition counter_params :: "int \<Rightarrow> Params" where
  "counter_params i = \<lparr>key = ''n'', initialValue = Number i, shouldSaveToStorage = False\<rparr>"

text \<open>
  A consumer renders first with initial value 1, renders again with initial value 2, and
  \<^verbatim>\<open>clear()\<close> of the second render's interface is called.
\<close>

definition clear_after_rerender :: "Consumer \<times> World" where
  "clear_after_rerender =
     (let cw1 = first_render (counter_params 1);
          cw2 = snd (useSharedState (counter_params 2) (Some (fst cw1)) (snd cw1))
      in snd (snd (clear (counter_params 2) (fst cw2) (snd cw2))))"

section \<open>Properties of the dictionaries and of the state manager\<close>

lemma proto_is_member: "''__proto__'' \<in> set object_prototype_names"
  by (simp add: object_prototype_names_def)

lemma not_member_not_proto: "k \<notin> set object_prototype_names \<Longrightarrow> k \<noteq> ''__proto__''"
  using proto_is_member by auto


lemma js_set_own:
  "k \<noteq> ''__proto__'' \<Longrightarrow> js_set d k v = d\<lparr>own := (own d)(k \<mapsto> v)\<rparr>"
  by (simp add: js_set_def)

lemma js_get_own_update:
  "js_get (d\<lparr>own := (own d)(k \<mapsto> v)\<rparr>) k' = (if k' = k then Plain v else js_get d k')"
  by (simp add: js_get_def split: option.splits prototype.splits)

lemma js_get_js_set:
  "k \<noteq> ''__proto__'' \<Longrightarrow> js_get (js_set d k v) k' = (if k' = k then Plain v else js_get d k')"
  by (simp add: js_set_own js_get_own_update)

lemma js_get_new_dict:
  "k \<notin> set object_prototype_names \<Longrightarrow> js_get new_dict k = Plain Undefined"
  using not_member_not_proto [of k]
  by (simp add: js_get_def new_dict_def object_prototype_get_def)



lemma forEach_invoke:
  "forEach fs (\<lambda>render. invoke render lv v) trace =
     trace @ map (\<lambda>f. \<lparr>callback = f, lastValue = lv, newValue = v\<rparr>) fs"
  by (induction fs arbitrary: trace) (simp_all add: invoke_def)

lemma write_calls:
  "fst (write_value m k v) =
     map (\<lambda>f. \<lparr>callback = f, lastValue = js_get (state m) k, newValue = v\<rparr>) (subscribers m k)"
  by (simp add: write_value_def subscriptions_at_def subscribers_def Let_def forEach_invoke
      split: option.splits)

lemma write_manager:
  "snd (snd (write_value m k v)) = m\<lparr>state := js_set (state m) k v\<rparr>"
  by (simp add: write_value_def subscriptions_at_def Let_def split: option.splits)

lemma write_thrown:
  "k \<notin> set object_prototype_names \<Longrightarrow> fst (snd (write_value m k v)) = None"
  by (simp add: write_value_def subscriptions_at_def Let_def split: option.splits)

lemma write_thrown_member:
  "k \<in> set object_prototype_names \<Longrightarrow> rerendersToTrigger m k = None \<Longrightarrow>
     fst (snd (write_value m k v)) = Some TypeError"
  by (simp add: write_value_def subscriptions_at_def Let_def)

lemma callbacks_of_write:
  "map callback (fst (write_value m k v)) = subscribers m k"
  by (simp add: write_calls comp_def)

lemma callback_set_of_write:
  "callback ` set (fst (write_value m k v)) = set (subscribers m k)"
proof -
  have "set (map callback (fst (write_value m k v))) = set (subscribers m k)"
    by (simp only: callbacks_of_write)
  then show ?thesis by simp
qed

lemma watchForUpdates_plain:
  "k \<notin> set object_prototype_names \<Longrightarrow>
     watchForUpdates m k f =
       Inr (m\<lparr>rerendersToTrigger := (rerendersToTrigger m)(k \<mapsto> subscribers m k @ [f])\<rparr>)"
  by (simp add: watchForUpdates_def subscriptions_at_def subscribers_def Let_def
      split: option.splits)

lemma watchForUpdates_member:
  "k \<in> set object_prototype_names \<Longrightarrow> rerendersToTrigger m k = None \<Longrightarrow>
     watchForUpdates m k f = Inl TypeError"
  by (simp add: watchForUpdates_def subscriptions_at_def Let_def)

lemma subscribers_endWatch:
  "endWatch m k f = Inr m' \<Longrightarrow>
     subscribers m' k' =
       (if k' = k then filter (\<lambda>s. s \<noteq> f) (subscribers m k) else subscribers m k')"
  by (auto simp: endWatch_def subscribers_def split: option.splits)

lemma watchForUpdates_times_plain:
  "k \<notin> set object_prototype_names \<Longrightarrow>
     \<exists>m'. watchForUpdates_times n m k f = Inr m'
       \<and> subscribers m' k = subscribers m k @ replicate n f
       \<and> state m' = state m"
proof (induction n arbitrary: m)
  case 0
  then show ?case by simp
next
  case (Suc n)
  let ?m1 = "m\<lparr>rerendersToTrigger := (rerendersToTrigger m)(k \<mapsto> subscribers m k @ [f])\<rparr>"
  from Suc.IH [OF Suc.prems, of ?m1] obtain m' where
    "watchForUpdates_times n ?m1 k f = Inr m'"
    "subscribers m' k = subscribers ?m1 k @ replicate n f" "state m' = state ?m1"
    by blast
  then show ?case
    using Suc.prems
    by (simp add: watchForUpdates_plain subscribers_def replicate_app_Cons_same)
qed

lemma count_list_replicate: "count_list (replicate n x) x = n"
  by (induction n) simp_all

lemmas manager_defs =
  write_value_def read_def watchForUpdates_def endWatch_def subscribers_def
  subscriptions_at_def new_StateManager_def new_dict_def js_get_def js_set_def
  reaches_setter_def object_prototype_get_def invoke_def Let_def

lemma k_plain [simp]: "''k'' \<notin> set object_prototype_names"
  and other_plain [simp]: "''other'' \<notin> set object_prototype_names"
  by (simp_all add: object_prototype_names_def)

lemma busy_manager_eq:
  "busy_manager =
     \<lparr>state = \<lparr>own = [''other'' \<mapsto> Number 1], proto = Object_prototype\<rparr>,
      rerendersToTrigger = [''k'' \<mapsto> [1, 2], ''other'' \<mapsto> [3]]\<rparr>"
  by (simp add: busy_manager_def watchForUpdates_plain write_manager js_set_own
      subscribers_def new_StateManager_def new_dict_def)

lemma dup_watchers_eq:
  "dup_watchers = \<lparr>state = new_dict, rerendersToTrigger = [''k'' \<mapsto> [1, 2, 1]]\<rparr>"
  by (simp add: dup_watchers_def watchForUpdates_plain subscribers_def new_StateManager_def)

text \<open>
  Claim C1. \<^verbatim>\<open>write(k, v)\<close> calls the callbacks registered for \<open>k\<close>, one call per
  registration, in registration order, each with the prior value of \<open>k\<close> and with \<open>v\<close>;
  the calls are made before \<^verbatim>\<open>write\<close> returns (they are its trace). So a callback is
  called as many times as it is registered, and a callback that \<^verbatim>\<open>endWatch\<close> removed from
  \<open>k\<close> just before the write is not called. This holds for every key: where \<open>k\<close> has no
  list and reads as a member of \<^verbatim>\<open>Object.prototype\<close>, nothing is registered for it and
  \<^verbatim>\<open>write\<close> throws without having made a call.
\<close>

theorem write_invokes_registered_callbacks:
  "fst (write_value m k v) =
     map (\<lambda>f. \<lparr>callback = f, lastValue = js_get (read m) k, newValue = v\<rparr>) (subscribers m k)
   \<and> count_list (map callback (fst (write_value m k v))) f = count_list (subscribers m k) f
   \<and> (endWatch m0 k g = Inr m \<longrightarrow> g \<notin> callback ` set (fst (write_value m k v)))"
proof (intro conjI impI)
  show "fst (write_value m k v) =
     map (\<lambda>f. \<lparr>callback = f, lastValue = js_get (read m) k, newValue = v\<rparr>) (subscribers m k)"
    by (simp add: write_calls read_def)
  show "count_list (map callback (fst (write_value m k v))) f = count_list (subscribers m k) f"
    by (simp add: callbacks_of_write)
next
  assume "endWatch m0 k g = Inr m"
  then have "subscribers m k = filter (\<lambda>s. s \<noteq> g) (subscribers m0 k)"
    by (simp add: subscribers_endWatch)
  then have "g \<notin> set (subscribers m k)" by simp
  then show "g \<notin> callback ` set (fst (write_value m k v))"
    by (simp only: callback_set_of_write) simp
qed

text \<open>
  Callbacks 1, 2 and 1 again watch \<^verbatim>\<open>k\<close>; after \<^verbatim>\<open>endWatch(k, 1)\<close> a write calls callback 2
  only, once, with \<^verbatim>\<open>undefined\<close> and the new value.
\<close>

theorem write_invokes_registered_callbacks_witness:
  "endWatch dup_watchers ''k'' 1
     = Inr \<lparr>state = new_dict, rerendersToTrigger = [''k'' \<mapsto> [2]]\<rparr>
   \<and> fst (write_value \<lparr>state = new_dict, rerendersToTrigger = [''k'' \<mapsto> [2]]\<rparr>
             ''k'' (Number 5))
       = [\<lparr>callback = 2, lastValue = Plain Undefined, newValue = Number 5\<rparr>]
   \<and> 1 \<notin> callback ` set (fst (write_value
             \<lparr>state = new_dict, rerendersToTrigger = [''k'' \<mapsto> [2]]\<rparr> ''k'' (Number 5)))"
proof -
  let ?m = "\<lparr>state = new_dict, rerendersToTrigger = [''k'' \<mapsto> [2::nat]]\<rparr>"
  have e: "endWatch dup_watchers ''k'' 1 = Inr ?m"
    by (simp add: dup_watchers_eq endWatch_def)
  have s: "subscribers ?m ''k'' = [2]" and r: "js_get (read ?m) ''k'' = Plain Undefined"
    by (simp_all add: subscribers_def read_def js_get_new_dict)
  from write_invokes_registered_callbacks [of ?m "''k''" "Number 5" 1 dup_watchers 1] e s r
  show ?thesis by simp
qed

text \<open>
  Claim C2, as the code has it. For a key that names no member of \<^verbatim>\<open>Object.prototype\<close>,
  \<^verbatim>\<open>write(k, v)\<close> returns normally and the object \<^verbatim>\<open>read()\<close> returns then has \<open>v\<close> itself at \<open>k\<close>:
  the same primitive, or the same array or object with the same identity.
\<close>

theorem write_then_read:
  assumes "k \<notin> set object_prototype_names"
  shows "fst (snd (write_value m k v)) = None
     \<and> js_get (read (snd (snd (write_value m k v)))) k = Plain v"
  using assms not_member_not_proto [OF assms]
  by (simp add: write_thrown write_manager read_def js_get_js_set)

text \<open>
  On a new manager, \<^verbatim>\<open>write('k', 5)\<close> returns and \<^verbatim>\<open>read()['k']\<close> is 5.
\<close>

theorem write_then_read_witness:
  "''k'' \<notin> set object_prototype_names
   \<and> fst (snd (write_value new_StateManager ''k'' (Number 5))) = None
   \<and> js_get (read (snd (snd (write_value new_StateManager ''k'' (Number 5))))) ''k''
       = Plain (Number 5)"
  using write_then_read [of "''k''" new_StateManager "Number 5"] by simp

text \<open>
  Claim C2 as stated fails at the key \<^verbatim>\<open>__proto__\<close>: on a new manager \<^verbatim>\<open>write('__proto__', 5)\<close>
  stores nothing, makes no call and throws a \<^verbatim>\<open>TypeError\<close>, and \<^verbatim>\<open>read()['__proto__']\<close> is
  \<^verbatim>\<open>Object.prototype\<close>, not 5.
\<close>

theorem write_proto_counterexample:
  "write_value new_StateManager ''__proto__'' (Number 5) = ([], Some TypeError, new_StateManager)
   \<and> js_get (read new_StateManager) ''__proto__'' = Member ''Object.prototype''"
  by (simp add: manager_defs object_prototype_names_def)

text \<open>
  Claim C9, as the code has it. For a key that names no member of \<^verbatim>\<open>Object.prototype\<close>,
  \<^verbatim>\<open>write(k, v)\<close> returns normally, leaves what every other key reads as as it was and leaves
  every subscriber list as it was. The callbacks it calls are the registrations under \<open>k\<close>,
  one call each and nothing more: registrations under other keys cause no call, and a
  callback that is not registered under \<open>k\<close> is not called.
\<close>

theorem write_frame:
  assumes "k \<notin> set object_prototype_names"
  shows "fst (snd (write_value m k v)) = None
   \<and> (\<forall>k'. k' \<noteq> k \<longrightarrow>
        js_get (read (snd (snd (write_value m k v)))) k' = js_get (read m) k')
   \<and> rerendersToTrigger (snd (snd (write_value m k v))) = rerendersToTrigger m
   \<and> map callback (fst (write_value m k v)) = subscribers m k
   \<and> (f \<notin> set (subscribers m k) \<longrightarrow> f \<notin> callback ` set (fst (write_value m k v)))"
  using assms not_member_not_proto [OF assms]
  by (simp add: write_thrown write_manager read_def js_get_js_set callbacks_of_write
      callback_set_of_write)

text \<open>
  A manager holds 1 under \<^verbatim>\<open>other\<close>, callbacks 1 and 2 under \<^verbatim>\<open>k\<close> and callback 3 under
  \<^verbatim>\<open>other\<close>; a write to \<^verbatim>\<open>k\<close> keeps all of that, calls 1 and 2, and does not call 3.
\<close>

theorem write_frame_witness:
  "''k'' \<notin> set object_prototype_names
   \<and> fst (snd (write_value busy_manager ''k'' (Number 5))) = None
   \<and> js_get (read (snd (snd (write_value busy_manager ''k'' (Number 5))))) ''other''
       = Plain (Number 1)
   \<and> rerendersToTrigger (snd (snd (write_value busy_manager ''k'' (Number 5))))
       = [''k'' \<mapsto> [1, 2], ''other'' \<mapsto> [3]]
   \<and> map callback (fst (write_value busy_manager ''k'' (Number 5))) = [1, 2]
   \<and> subscribers busy_manager ''other'' = [3]
   \<and> 3 \<notin> callback ` set (fst (write_value busy_manager ''k'' (Number 5)))"
proof -
  have d: "''other'' \<noteq> ''k''" by simp
  have s: "subscribers busy_manager ''k'' = [1, 2]"
    and o: "subscribers busy_manager ''other'' = [3]"
    by (simp_all add: busy_manager_eq subscribers_def)
  have r: "js_get (read busy_manager) ''other'' = Plain (Number 1)"
    and t: "rerendersToTrigger busy_manager = [''k'' \<mapsto> [1, 2], ''other'' \<mapsto> [3]]"
    by (simp_all add: busy_manager_eq read_def js_get_def)
  from write_frame [of "''k''" busy_manager "Number 5" 3] d s o r t
  show ?thesis by auto
qed

text \<open>
  Claim C9 as stated fails at the key \<^verbatim>\<open>__proto__\<close>: on a new manager, writing an object
  that holds 1 under \<^verbatim>\<open>x\<close> makes it the prototype of \<^verbatim>\<open>state\<close>, so the other key \<^verbatim>\<open>x\<close>, which
  read as \<^verbatim>\<open>undefined\<close>, reads as 1; the write then throws a \<^verbatim>\<open>TypeError\<close>.
\<close>

theorem write_frame_proto_counterexample:
  "js_get (read new_StateManager) ''x'' = Plain Undefined
   \<and> fst (snd (write_value new_StateManager ''__proto__'' (Object (Id 7) [(''x'', JNum 1)])))
       = Some TypeError
   \<and> js_get (read (snd (snd (write_value new_StateManager ''__proto__''
                                 (Object (Id 7) [(''x'', JNum 1)]))))) ''x''
       = Plain (Number 1)"
  by (simp add: manager_defs object_prototype_names_def)

text \<open>
  Claim C10, as the code has it. For a key that names no member of \<^verbatim>\<open>Object.prototype\<close>,
  \<^verbatim>\<open>watchForUpdates\<close> does not deduplicate: registering \<open>f\<close> for \<open>k\<close> \<open>n\<close> times returns
  normally each time and appends \<open>n\<close> copies of \<open>f\<close> to the list of \<open>k\<close>, so \<open>f\<close> is in the list
  \<open>n\<close> more times than before, and a following write to \<open>k\<close> calls it that many times; on a
  new manager the write makes exactly \<open>n\<close> calls, all of \<open>f\<close>.
\<close>

theorem watchForUpdates_keeps_duplicates:
  assumes "k \<notin> set object_prototype_names"
  shows "\<exists>m'. watchForUpdates_times n m k f = Inr m'
     \<and> subscribers m' k = subscribers m k @ replicate n f
     \<and> count_list (subscribers m' k) f = count_list (subscribers m k) f + n
     \<and> count_list (map callback (fst (write_value m' k v))) f
         = count_list (subscribers m k) f + n
     \<and> (m = new_StateManager \<longrightarrow>
          fst (write_value m' k v)
            = replicate n \<lparr>callback = f, lastValue = Plain Undefined, newValue = v\<rparr>)"
proof -
  from watchForUpdates_times_plain [OF assms, of n m f] obtain m' where
    t: "watchForUpdates_times n m k f = Inr m'"
    and s: "subscribers m' k = subscribers m k @ replicate n f"
    and st: "state m' = state m"
    by blast
  have c: "count_list (subscribers m' k) f = count_list (subscribers m k) f + n"
    by (simp add: s count_list_replicate)
  have w: "count_list (map callback (fst (write_value m' k v))) f
         = count_list (subscribers m k) f + n"
    by (simp add: callbacks_of_write c)
  have n: "fst (write_value m' k v)
            = replicate n \<lparr>callback = f, lastValue = Plain Undefined, newValue = v\<rparr>"
    if "m = new_StateManager"
  proof -
    have "subscribers m k = []" and "js_get (state m) k = Plain Undefined"
      using that assms by (simp_all add: subscribers_def new_StateManager_def js_get_new_dict)
    then show ?thesis by (simp add: write_calls s st)
  qed
  from t s c w n show ?thesis by blast
qed

text \<open>
  Callback 4 is registered three times for \<^verbatim>\<open>k\<close> on a new manager: the list holds it three
  times and a write calls it three times.
\<close>

theorem watchForUpdates_keeps_duplicates_witness:
  "''k'' \<notin> set object_prototype_names
   \<and> watchForUpdates_times 3 new_StateManager ''k'' 4
       = Inr \<lparr>state = new_dict, rerendersToTrigger = [''k'' \<mapsto> [4, 4, 4]]\<rparr>
   \<and> fst (write_value \<lparr>state = new_dict, rerendersToTrigger = [''k'' \<mapsto> [4, 4, 4]]\<rparr>
            ''k'' (Number 5))
       = [\<lparr>callback = 4, lastValue = Plain Undefined, newValue = Number 5\<rparr>,
          \<lparr>callback = 4, lastValue = Plain Undefined, newValue = Number 5\<rparr>,
          \<lparr>callback = 4, lastValue = Plain Undefined, newValue = Number 5\<rparr>]"
proof -
  let ?m = "\<lparr>state = new_dict, rerendersToTrigger = [''k'' \<mapsto> [4::nat, 4, 4]]\<rparr>"
  have t: "watchForUpdates_times 3 new_StateManager ''k'' 4 = Inr ?m"
    by (simp add: numeral_3_eq_3 watchForUpdates_plain subscribers_def new_StateManager_def)
  from watchForUpdates_keeps_duplicates [of "''k''" 3 new_StateManager 4 "Number 5"] t
  have "fst (write_value ?m ''k'' (Number 5))
      = replicate 3 \<lparr>callback = 4, lastValue = Plain Undefined, newValue = Number 5\<rparr>"
    by auto
  with t show ?thesis by (simp add: numeral_3_eq_3)
qed

text \<open>
  Claim C10 as stated fails at a key that names a member of \<^verbatim>\<open>Object.prototype\<close>: on a new
  manager \<^verbatim>\<open>watchForUpdates('constructor', f)\<close> throws a \<^verbatim>\<open>TypeError\<close> and registers nothing.
\<close>

theorem watchForUpdates_member_counterexample:
  "watchForUpdates new_StateManager ''constructor'' 1 = Inl TypeError
   \<and> watchForUpdates_times 2 new_StateManager ''constructor'' 1 = Inl TypeError"
  by (simp add: numeral_2_eq_2 watchForUpdates_def subscriptions_at_def new_StateManager_def
      object_prototype_names_def)

text \<open>
  Claim C6, as the code has it. For a key that has a subscriber list, \<^verbatim>\<open>endWatch(k, f)\<close>
  returns normally and removes every occurrence of \<open>f\<close> from the list of \<open>k\<close>, by identity;
  the other callbacks of \<open>k\<close> stay, in order; when \<open>f\<close> is not in the list nothing changes;
  the lists of the other keys and the stored values are untouched.
\<close>

theorem endWatch_removes_every_occurrence:
  assumes "rerendersToTrigger m k = Some fs"
  shows "\<exists>m'. endWatch m k f = Inr m'
     \<and> subscribers m' k = filter (\<lambda>s. s \<noteq> f) fs
     \<and> (f \<notin> set fs \<longrightarrow> m' = m)
     \<and> (\<forall>k'. k' \<noteq> k \<longrightarrow> subscribers m' k' = subscribers m k')
     \<and> state m' = state m"
proof -
  let ?m' = "m\<lparr>rerendersToTrigger := (rerendersToTrigger m)(k \<mapsto> filter (\<lambda>s. s \<noteq> f) fs)\<rparr>"
  have e: "endWatch m k f = Inr ?m'"
    using assms by (simp add: endWatch_def)
  have "filter (\<lambda>s. s \<noteq> f) fs = fs" if "f \<notin> set fs"
    using that by (induction fs) auto
  then have "?m' = m" if "f \<notin> set fs"
    using that assms by (simp add: fun_upd_idem)
  with e show ?thesis
    by (auto simp: subscribers_def)
qed

text \<open>
  With callbacks 1, 2, 1 under \<^verbatim>\<open>k\<close>: removing callback 1 leaves callback 2, and removing
  callback 3, which is not registered, leaves the manager as it was.
\<close>

theorem endWatch_removes_every_occurrence_witness:
  "rerendersToTrigger dup_watchers ''k'' = Some [1, 2, 1]
   \<and> endWatch dup_watchers ''k'' 1
       = Inr \<lparr>state = new_dict, rerendersToTrigger = [''k'' \<mapsto> [2]]\<rparr>
   \<and> endWatch dup_watchers ''k'' 3 = Inr dup_watchers"
proof -
  have l: "rerendersToTrigger dup_watchers ''k'' = Some [1, 2, 1]"
    by (simp add: dup_watchers_eq)
  from endWatch_removes_every_occurrence [OF l, of 3]
  have "endWatch dup_watchers ''k'' 3 = Inr dup_watchers" by auto
  moreover have "endWatch dup_watchers ''k'' 1
       = Inr \<lparr>state = new_dict, rerendersToTrigger = [''k'' \<mapsto> [2]]\<rparr>"
    by (simp add: dup_watchers_eq endWatch_def)
  ultimately show ?thesis using l by simp
qed

text \<open>
  Claim C6 as stated fails where a callback is registered twice: with 1, 2, 1 under
  \<^verbatim>\<open>k\<close>, removing the first occurrence of 1 would leave 2, 1, and \<^verbatim>\<open>endWatch(k, 1)\<close> leaves 2.
\<close>

theorem endWatch_first_occurrence_counterexample:
  "subscribers dup_watchers ''k'' = [1, 2, 1]
   \<and> remove1 1 (subscribers dup_watchers ''k'') = [2, 1]
   \<and> endWatch dup_watchers ''k'' 1
       = Inr \<lparr>state = new_dict, rerendersToTrigger = [''k'' \<mapsto> [2]]\<rparr>
   \<and> subscribers \<lparr>state = new_dict, rerendersToTrigger = [''k'' \<mapsto> [2]]\<rparr> ''k'' = [2]"
  by (simp add: dup_watchers_eq endWatch_def subscribers_def)

text \<open>
  For a key that never had a subscriber, \<^verbatim>\<open>endWatch\<close> throws: \<^verbatim>\<open>write\<close> guards the same lookup
  with \<^verbatim>\<open>?.\<close>, \<^verbatim>\<open>endWatch\<close> does not.
\<close>

lemma endWatch_without_list: "endWatch new_StateManager k f = Inl TypeError"
  by (simp add: endWatch_def new_StateManager_def)

section \<open>Properties of the concrete JSON codec\<close>

lemma digit_char_is_digit: "d < 10 \<Longrightarrow> is_digit (digit_char d)"
proof -
  assume "d < 10"
  then have "d \<in> {0,1,2,3,4,5,6,7,8,9}" by auto
  then show ?thesis by (auto simp: is_digit_def digit_char_def)
qed

lemma digit_value_digit_char: "d < 10 \<Longrightarrow> digit_value (digit_char d) = d"
proof -
  assume "d < 10"
  then have "d \<in> {0,1,2,3,4,5,6,7,8,9}" by auto
  then show ?thesis by (auto simp: digit_value_def digit_char_def)
qed

lemma digit_char_zero: "d < 10 \<Longrightarrow> digit_char d = CHR ''0'' \<Longrightarrow> d = 0"
proof -
  assume "d < 10" and z: "digit_char d = CHR ''0''"
  then have "d \<in> {0,1,2,3,4,5,6,7,8,9}" by auto
  with z show ?thesis by (auto simp: digit_char_def)
qed

lemma encode_nat_digits: "\<forall>c \<in> set (encode_nat n). is_digit c"
proof (induction n rule: encode_nat.induct)
  case (1 n)
  show ?case
  proof (cases "n < 10")
    case True
    then show ?thesis by (simp add: encode_nat.simps [of n] digit_char_is_digit)
  next
    case False
    with "1" show ?thesis
      by (simp add: encode_nat.simps [of n] digit_char_is_digit)
  qed
qed

lemma encode_nat_nonempty: "encode_nat n \<noteq> []"
  by (simp add: encode_nat.simps [of n])

lemma decode_nat_snoc: "decode_nat (ds @ [c]) = 10 * decode_nat ds + digit_value c"
  by (simp add: decode_nat_def)

lemma decode_nat_encode_nat: "decode_nat (encode_nat n) = n"
proof (induction n rule: encode_nat.induct)
  case (1 n)
  show ?case
  proof (cases "n < 10")
    case True
    then show ?thesis
      by (simp add: encode_nat.simps [of n] decode_nat_def digit_value_digit_char)
  next
    case False
    with "1" show ?thesis
      by (simp add: encode_nat.simps [of n] decode_nat_snoc digit_value_digit_char)
  qed
qed

lemma hd_encode_nat: "0 < n \<Longrightarrow> hd (encode_nat n) \<noteq> CHR ''0''"
proof (induction n rule: encode_nat.induct)
  case (1 n)
  show ?case
  proof (cases "n < 10")
    case True
    with "1.prems" show ?thesis
      using digit_char_zero [of n] by (auto simp: encode_nat.simps [of n])
  next
    case False
    then have "0 < n div 10" by simp
    with "1.IH" False have "hd (encode_nat (n div 10)) \<noteq> CHR ''0''" by simp
    with False show ?thesis
      by (simp add: encode_nat.simps [of n] encode_nat_nonempty)
  qed
qed

lemma length_encode_nat: "1 < length (encode_nat n) \<Longrightarrow> 0 < n"
  by (cases "n = 0") (simp_all add: encode_nat.simps [of 0])

lemma takeWhile_digits:
  assumes "r = [] \<or> \<not> is_digit (hd r)"
  shows "takeWhile is_digit (encode_nat n @ r) = encode_nat n"
    and "dropWhile is_digit (encode_nat n @ r) = r"
proof -
  have r: "takeWhile is_digit r = []" "dropWhile is_digit r = r"
    using assms by (cases r; simp)+
  show "takeWhile is_digit (encode_nat n @ r) = encode_nat n"
    using encode_nat_digits [of n] r by (simp add: takeWhile_append2)
  show "dropWhile is_digit (encode_nat n @ r) = r"
    using encode_nat_digits [of n] r by (simp add: dropWhile_append2)
qed

lemma hd_encode_nat_digit: "is_digit (hd (encode_nat n))"
  using encode_nat_digits [of n] encode_nat_nonempty [of n]
  by (cases "encode_nat n") auto

lemma not_digit_minus: "\<not> is_digit CHR ''-''"
  by (simp add: is_digit_def)

lemma decode_number_encode_int:
  assumes "r = [] \<or> \<not> is_digit (hd r)"
  shows "decode_number (encode_int i @ r) = Some (JNum i, r)"
proof (cases "i < 0")
  case True
  let ?n = "nat (- i)"
  have "decode_number (CHR ''-'' # encode_nat ?n @ r) = Some (JNum i, r)"
    using True takeWhile_digits [OF assms, of ?n] encode_nat_nonempty [of ?n]
      hd_encode_nat [of ?n] length_encode_nat [of ?n]
    by (auto simp: decode_number_def Let_def decode_nat_encode_nat)
  with True show ?thesis by (simp add: encode_int_def)
next
  case False
  let ?n = "nat i"
  have h: "hd (encode_nat ?n @ r) \<noteq> CHR ''-''"
    using hd_encode_nat_digit [of ?n] encode_nat_nonempty [of ?n] not_digit_minus
    by (cases "encode_nat ?n") auto
  have "decode_number (encode_nat ?n @ r) = Some (JNum i, r)"
    using False h takeWhile_digits [OF assms, of ?n] encode_nat_nonempty [of ?n]
      hd_encode_nat [of ?n] length_encode_nat [of ?n]
    by (auto simp: decode_number_def Let_def decode_nat_encode_nat)
  with False show ?thesis by (simp add: encode_int_def)
qed

lemma decode_chars_encode_chars:
  "decode_chars (encode_chars s @ CHR 0x22 # r) = Some (s, r)"
proof (induction s)
  case Nil
  then show ?case by (cases r) simp_all
next
  case (Cons c cs)
  obtain e t where t: "encode_chars cs @ CHR 0x22 # r = e # t"
    by (cases "encode_chars cs @ CHR 0x22 # r") auto
  show ?case
  proof (cases "c = CHR 0x22 \<or> c = CHR 0x5C")
    case True
    with Cons show ?thesis by auto
  next
    case False
    with Cons t show ?thesis by auto
  qed
qed

lemma starts_with_simps [simp]:
  "starts_with [] s"
  "starts_with (p # ps) [] = False"
  "starts_with (p # ps) (c # cs) = (p = c \<and> starts_with ps cs)"
  by (auto simp: starts_with_def)

lemma after_simps [simp]:
  "after [] s = s"
  "after (p # ps) (c # cs) = after ps cs"
  by (simp_all add: after_def)

lemma terminated_simps [simp]:
  "terminated []"
  "terminated (CHR '','' # r)"
  "terminated (CHR '']'' # r)"
  "terminated (CHR ''}'' # r)"
  by (simp_all add: terminated_def is_digit_def)

lemma encode_int_first:
  "\<exists>c t. encode_int i = c # t \<and> (c = CHR ''-'' \<or> is_digit c)"
proof (cases "i < 0")
  case True
  then show ?thesis by (simp add: encode_int_def)
next
  case False
  then show ?thesis
    using hd_encode_nat_digit [of "nat i"] encode_nat_nonempty [of "nat i"]
    by (cases "encode_nat (nat i)") (auto simp: encode_int_def)
qed

lemma decode_value_number:
  assumes "terminated r"
  shows "decode_value (Suc n) (encode_int i @ r) = Some (JNum i, r)"
proof -
  obtain c t where ct: "encode_int i = c # t" and c: "c = CHR ''-'' \<or> is_digit c"
    using encode_int_first by blast
  have "decode_value (Suc n) (c # t @ r) = decode_number (c # t @ r)"
    using c by (auto simp: is_digit_def)
  with ct decode_number_encode_int [of r i] assms show ?thesis
    by (simp add: terminated_def)
qed

lemma json_encode_first:
  "\<exists>c t. json_encode j = c # t \<and> c \<noteq> CHR '']'' \<and> c \<noteq> CHR ''}''"
proof (cases j)
  case (JNum i)
  then show ?thesis
    using encode_int_first [of i] by (auto simp: is_digit_def)
qed (auto simp: encode_string_def)

lemma decode_elements_encode:
  assumes IH: "\<And>x n r. x \<in> set xs \<Longrightarrow> length (json_encode x) \<le> n \<Longrightarrow> terminated r \<Longrightarrow>
      decode_value (Suc n) (json_encode x @ r) = Some (x, r)"
    and "xs \<noteq> []"
    and "length (separate '','' (map json_encode xs)) + 2 \<le> n"
  shows "decode_elements n (separate '','' (map json_encode xs) @ CHR '']'' # r) = Some (xs, r)"
  using assms
proof (induction xs arbitrary: n)
  case Nil
  then show ?case by simp
next
  case (Cons x xs)
  from Cons.prems(3) obtain n' where n: "n = Suc (Suc n')"
    by (cases n; cases "n - 1") auto
  show ?case
  proof (cases xs)
    case Nil
    have "decode_value (Suc n') (json_encode x @ CHR '']'' # r) = Some (x, CHR '']'' # r)"
      using Cons.prems(1) [of x n' "CHR '']'' # r"] Cons.prems(3) n Nil by simp
    with n Nil show ?thesis by simp
  next
    case (Cons y ys)
    let ?rest = "separate '','' (map json_encode xs) @ CHR '']'' # r"
    have len: "length (json_encode x) \<le> n'"
      and len': "length (separate '','' (map json_encode xs)) + 2 \<le> Suc n'"
      using Cons.prems(3) n Cons by simp_all
    have "decode_value (Suc n') (json_encode x @ CHR '','' # ?rest) = Some (x, CHR '','' # ?rest)"
      using Cons.prems(1) [of x n' "CHR '','' # ?rest"] len by simp
    moreover have "decode_elements (Suc n') ?rest = Some (xs, r)"
      using Cons.IH [of "Suc n'"] Cons.prems(1) len' Cons by simp
    ultimately show ?thesis
      using n Cons by simp
  qed
qed

declare decode_value.simps [simp del]

lemma decode_members_encode:
  assumes IH: "\<And>k x n r. (k, x) \<in> set ms \<Longrightarrow> length (json_encode x) \<le> n \<Longrightarrow> terminated r \<Longrightarrow>
      decode_value (Suc n) (json_encode x @ r) = Some (x, r)"
    and "ms \<noteq> []"
    and "length (separate '','' (map (\<lambda>(k, x). encode_string k @ '':'' @ json_encode x) ms)) + 2 \<le> n"
  shows "decode_members n
           (separate '','' (map (\<lambda>(k, x). encode_string k @ '':'' @ json_encode x) ms)
              @ CHR ''}'' # r) = Some (ms, r)"
  using assms
proof (induction ms arbitrary: n)
  case Nil
  then show ?case by simp
next
  case (Cons m ms)
  obtain k x where m: "m = (k, x)" by (cases m)
  from Cons.prems(3) obtain n' where n: "n = Suc (Suc n')"
    by (cases n; cases "n - 1") auto
  show ?case
  proof (cases ms)
    case Nil
    have "decode_value (Suc n') (json_encode x @ CHR ''}'' # r) = Some (x, CHR ''}'' # r)"
      using Cons.prems(1) [of k x n' "CHR ''}'' # r"] Cons.prems(3) n Nil m by simp
    with n Nil m show ?thesis
      by (simp add: encode_string_def decode_chars_encode_chars)
  next
    case (Cons m' ms')
    let ?rest = "separate '','' (map (\<lambda>(k, x). encode_string k @ '':'' @ json_encode x) ms)
                   @ CHR ''}'' # r"
    have len: "length (json_encode x) \<le> n'"
      and len': "length (separate '','' (map (\<lambda>(k, x). encode_string k @ '':'' @ json_encode x) ms))
                   + 2 \<le> Suc n'"
      using Cons.prems(3) n Cons m by simp_all
    have "decode_value (Suc n') (json_encode x @ CHR '','' # ?rest) = Some (x, CHR '','' # ?rest)"
      using Cons.prems(1) [of k x n' "CHR '','' # ?rest"] len m by simp
    moreover have "decode_members (Suc n') ?rest = Some (ms, r)"
    proof (rule Cons.IH)
      show "ms \<noteq> []" using Cons by simp
      show "length (separate '','' (map (\<lambda>(k, x). encode_string k @ '':'' @ json_encode x) ms))
              + 2 \<le> Suc n'"
        by (rule len')
      show "decode_value (Suc n) (json_encode x @ r) = Some (x, r)"
        if "(k, x) \<in> set ms" "length (json_encode x) \<le> n" "terminated r" for k x n r
        using Cons.prems(1) [of k x n r] that by simp
    qed
    ultimately show ?thesis
      using n Cons m by (simp add: encode_string_def decode_chars_encode_chars)
  qed
qed

lemma decode_value_encode:
  "length (json_encode j) \<le> n \<Longrightarrow> terminated r \<Longrightarrow>
     decode_value (Suc n) (json_encode j @ r) = Some (j, r)"
proof (induction j arbitrary: n r)
  case JNull
  then show ?case by (simp add: decode_value.simps)
next
  case (JBool b)
  then show ?case by (simp add: decode_value.simps)
next
  case (JNum i)
  then show ?case by (simp add: decode_value_number)
next
  case (JStr s)
  then show ?case
    by (simp add: decode_value.simps encode_string_def decode_chars_encode_chars)
next
  case (JArr xs)
  show ?case
  proof (cases xs)
    case Nil
    then show ?thesis by (simp add: decode_value.simps)
  next
    case (Cons y ys)
    obtain c t where c: "json_encode y = c # t" "c \<noteq> CHR '']''"
      using json_encode_first [of y] by blast
    have sep: "\<exists>t'. separate '','' (map json_encode xs) = c # t'"
      using c Cons by (cases ys) auto
    then obtain t' where t': "separate '','' (map json_encode xs) = c # t'" ..
    have "decode_elements n (separate '','' (map json_encode xs) @ CHR '']'' # r) = Some (xs, r)"
    proof (rule decode_elements_encode)
      show "xs \<noteq> []" using Cons by simp
      show "length (separate '','' (map json_encode xs)) + 2 \<le> n"
        using JArr.prems(1) by simp
      show "decode_value (Suc n) (json_encode x @ r) = Some (x, r)"
        if "x \<in> set xs" "length (json_encode x) \<le> n" "terminated r" for x n r
        using that by (rule JArr.IH)
    qed
    then show ?thesis
      using t' c(2) by (simp add: decode_value.simps)
  qed
next
  case (JObj ms)
  let ?enc = "\<lambda>(k, x). encode_string k @ '':'' @ json_encode x"
  show ?case
  proof (cases ms)
    case Nil
    then show ?thesis by (simp add: decode_value.simps)
  next
    case (Cons m ms')
    have sep: "\<exists>t'. separate '','' (map ?enc ms) = CHR 0x22 # t'"
      using Cons by (cases ms'; cases m) (auto simp: encode_string_def)
    then obtain t' where t': "separate '','' (map ?enc ms) = CHR 0x22 # t'" ..
    have "decode_members n (separate '','' (map ?enc ms) @ CHR ''}'' # r) = Some (ms, r)"
    proof (rule decode_members_encode)
      show "ms \<noteq> []" using Cons by simp
      show "length (separate '','' (map ?enc ms)) + 2 \<le> n"
        using JObj.prems(1) by simp
      show "decode_value (Suc n) (json_encode x @ r) = Some (x, r)"
        if "(k, x) \<in> set ms" "length (json_encode x) \<le> n" "terminated r" for k x n r
        using JObj.IH [of "(k, x)" x n r] that by simp
    qed
    then show ?thesis
      using t' by (simp add: decode_value.simps)
  qed
qed

text \<open>Decoding the text of a document gives the document back.\<close>

lemma json_decode_encode: "json_decode (json_encode j) = Some j"
  using decode_value_encode [of j "length (json_encode j)" "[]"]
  by (simp add: json_decode_def)

lemma json_encode_nonempty: "json_encode j \<noteq> []"
  using json_encode_first [of j] by auto

section \<open>Properties of the storage adaptor\<close>

lemmas storage_defs =
  getItem_def setItem_def getStorageKey_def new_StorageAdaptor_def storage_getItem_def
  storage_setItem_def JSON_parse_def JSON_stringify_def js_get_def js_set_def
  reaches_setter_def object_prototype_get_def new_dict_def Let_def

lemma json_decode_undefined: "json_decode ''undefined'' = None"
  by code_simp

lemma json_decode_oops: "json_decode ''{oops'' = None"
  by code_simp

lemma json_decode_null: "json_decode ''null'' = Some JNull"
  by code_simp






lemma o_plain [simp]: "''o'' \<notin> set object_prototype_names"
  and p_plain [simp]: "''p'' \<notin> set object_prototype_names"
  by (simp_all add: object_prototype_names_def)

lemma getStorageKey_cache [simp]:
  "getStorageKey (a\<lparr>objectCache := c\<rparr>) k = getStorageKey a k"
  by (simp add: getStorageKey_def)



lemma getItem_malformed:
  assumes "\<not> is_truthy (js_get (objectCache a) (getStorageKey a k))"
    and "storage_getItem rt (getStorageKey a k) = Text text"
    and "decode rt text = None"
  shows "getItem rt a k = (Plain Undefined, a, rt)"
  using assms by (simp add: getItem_def JSON_parse_def)












section \<open>Properties of the consumer hook\<close>

lemma useSharedState_value:
  "fst (useSharedState params memo w) =
     (let c = (case memo of
                 None \<Rightarrow>
                   \<lparr>fixedInitialValue = initialValue params, storage = new_StorageAdaptor None\<rparr>
               | Some c \<Rightarrow> c);
          slot = js_get (read (manager w)) (key params);
          storedValue = (if shouldSaveToStorage params
                         then fst (getItem (runtime w) (storage c) (key params))
                         else Plain Undefined)
      in if is_truthy slot then slot
         else if is_truthy storedValue then storedValue
         else Plain (fixedInitialValue c))"
  by (simp add: useSharedState_def js_or_def Let_def split: prod.splits)

lemma stale_cache_eq:
  "stale_cache =
     (\<lparr>prefix = None,
       objectCache = \<lparr>own = [''k'' \<mapsto> Object (Id 7) [(''a'', JNum 1)]],
                      proto = Object_prototype\<rparr>\<rparr>,
      browser\<lparr>localStorage := [''k'' \<mapsto> ''undefined'']\<rparr>)"
  by (simp add: stale_cache_def storage_defs browser_def)

text \<open>
  Claim C7, as the code has it. When the cache lookup for the key gives nothing truthy (no
  object is cached under the storage key and the key reads as no member of a prototype)
  and the text the backend holds for it fails to decode, \<^verbatim>\<open>getItem\<close> returns \<^verbatim>\<open>undefined\<close>,
  throws nothing, and changes neither the adaptor nor the runtime; a consumer with
  persistence enabled whose slot reads as \<^verbatim>\<open>undefined\<close> then has the initial value
  captured at its first render.
\<close>

theorem getItem_malformed_text:
  assumes "\<not> is_truthy (js_get (objectCache a) (getStorageKey a k))"
    and "storage_getItem rt (getStorageKey a k) = Text text"
    and "decode rt text = None"
  shows "getItem rt a k = (Plain Undefined, a, rt)
     \<and> (shouldSaveToStorage params \<and> key params = k \<and> storage c = a \<and> runtime w = rt
          \<and> js_get (read (manager w)) k = Plain Undefined
        \<longrightarrow> fst (useSharedState params (Some c) w) = Plain (fixedInitialValue c))"
proof -
  have g: "getItem rt a k = (Plain Undefined, a, rt)"
    using assms by (rule getItem_malformed)
  then show ?thesis
    by (auto simp: useSharedState_value)
qed

text \<open>
  The backend holds the malformed text \<^verbatim>\<open>{oops\<close> under \<^verbatim>\<open>k\<close>: \<^verbatim>\<open>getItem\<close> gives \<^verbatim>\<open>undefined\<close> and
  the consumer's value is its initial value 5.
\<close>

theorem getItem_malformed_text_witness:
  "\<not> is_truthy (js_get (objectCache (new_StorageAdaptor None)) ''k'')
   \<and> storage_getItem malformed_backend ''k'' = Text ''{oops''
   \<and> decode malformed_backend ''{oops'' = None
   \<and> getItem malformed_backend (new_StorageAdaptor None) ''k''
       = (Plain Undefined, new_StorageAdaptor None, malformed_backend)
   \<and> fst (useSharedState \<lparr>key = ''k'', initialValue = Number 5, shouldSaveToStorage = True\<rparr>
            (Some \<lparr>fixedInitialValue = Number 5, storage = new_StorageAdaptor None\<rparr>)
            \<lparr>manager = new_StateManager, runtime = malformed_backend\<rparr>) = Plain (Number 5)"
proof -
  let ?a = "new_StorageAdaptor None"
  have k: "getStorageKey ?a ''k'' = ''k''"
    by (simp add: getStorageKey_def new_StorageAdaptor_def)
  have h1: "\<not> is_truthy (js_get (objectCache ?a) (getStorageKey ?a ''k''))"
    by (simp only: k) (simp add: new_StorageAdaptor_def js_get_new_dict)
  have h2: "storage_getItem malformed_backend (getStorageKey ?a ''k'') = Text ''{oops''"
    by (simp only: k) (simp add: storage_getItem_def malformed_backend_def browser_def)
  have h3: "decode malformed_backend ''{oops'' = None"
    by (simp add: malformed_backend_def browser_def json_decode_oops)
  have e: "js_get (read (manager \<lparr>manager = new_StateManager, runtime = malformed_backend\<rparr>)) ''k''
             = Plain Undefined"
    by (simp add: read_def new_StateManager_def js_get_new_dict)
  from getItem_malformed_text [OF h1 h2 h3,
      of "\<lparr>key = ''k'', initialValue = Number 5, shouldSaveToStorage = True\<rparr>"
         "\<lparr>fixedInitialValue = Number 5, storage = new_StorageAdaptor None\<rparr>"
         "\<lparr>manager = new_StateManager, runtime = malformed_backend\<rparr>"] h1 h2 h3 e k
  show ?thesis by simp
qed

text \<open>
  Claim C7 as stated fails where the cache lookup gives something. With an object cached
  for \<^verbatim>\<open>k\<close> and the backend text \<^verbatim>\<open>undefined\<close>, which does not decode, \<^verbatim>\<open>getItem\<close> returns the
  cached object. With a new adaptor and the malformed text \<^verbatim>\<open>{oops\<close> under \<^verbatim>\<open>toString\<close>,
  \<^verbatim>\<open>getItem('toString')\<close> returns the function \<^verbatim>\<open>Object.prototype.toString\<close>.
\<close>

theorem getItem_malformed_cached_counterexample:
  "storage_getItem (snd stale_cache) (getStorageKey (fst stale_cache) ''k'') = Text ''undefined''
   \<and> decode (snd stale_cache) ''undefined'' = None
   \<and> fst (getItem (snd stale_cache) (fst stale_cache) ''k'')
       = Plain (Object (Id 7) [(''a'', JNum 1)])
   \<and> storage_getItem malformed_backend (getStorageKey (new_StorageAdaptor None) ''toString'')
       = Text ''{oops''
   \<and> decode malformed_backend ''{oops'' = None
   \<and> fst (getItem malformed_backend (new_StorageAdaptor None) ''toString'')
       = Member ''Object.prototype.toString''"
  by (simp add: stale_cache_eq storage_defs browser_def malformed_backend_def
      json_decode_undefined json_decode_oops object_prototype_names_def)

lemmas hook_defs =
  useSharedState_def update_def clear_def reload_def js_or_def read_def write_value_def
  subscriptions_at_def new_StateManager_def

lemma from_json_to_json: "to_json v = Some j \<Longrightarrow> from_json r j = copy_at r v"
  by (cases v) auto

lemma truthy_copy_at [simp]: "truthy (copy_at r v) = truthy v"
  by (cases v) simp_all

lemma is_object_copy_at [simp]: "is_object (copy_at r v) = is_object v"
  by (cases v) simp_all

lemma storage_getItem_setItem:
  "k \<noteq> ''__proto__'' \<Longrightarrow> storage_getItem (storage_setItem rt k (Some t)) k = Text t"
  by (simp add: storage_getItem_def storage_setItem_def)

lemma storage_setItem_fields [simp]:
  "decode (storage_setItem rt k t) = decode rt"
  "encode (storage_setItem rt k t) = encode rt"
  "nextObject (storage_setItem rt k t) = nextObject rt"
  by (simp_all add: storage_setItem_def)

lemma update_plain:
  assumes "key params \<notin> set object_prototype_names"
  shows "fst (snd (update params c (Value v) w)) = None"
    and "manager (snd (snd (snd (update params c (Value v) w))))
           = (manager w)\<lparr>state := js_set (state (manager w)) (key params) v\<rparr>"
    and "shouldSaveToStorage params \<Longrightarrow>
         runtime (snd (snd (snd (update params c (Value v) w))))
           = storage_setItem (runtime w) (getStorageKey (storage c) (key params))
               (JSON_stringify (runtime w) v)"
proof -
  obtain trace m where w: "write_value (manager w) (key params) v = (trace, None, m)"
    using write_thrown [OF assms, of "manager w" v]
    by (cases "write_value (manager w) (key params) v") auto
  then have m: "m = (manager w)\<lparr>state := js_set (state (manager w)) (key params) v\<rparr>"
    using write_manager [of "manager w" "key params" v] by simp
  show "fst (snd (update params c (Value v) w)) = None"
    using w by (simp add: update_def Let_def split: prod.splits)
  show "manager (snd (snd (snd (update params c (Value v) w))))
           = (manager w)\<lparr>state := js_set (state (manager w)) (key params) v\<rparr>"
    using w m by (simp add: update_def Let_def split: prod.splits)
  show "runtime (snd (snd (snd (update params c (Value v) w))))
           = storage_setItem (runtime w) (getStorageKey (storage c) (key params))
               (JSON_stringify (runtime w) v)"
    if "shouldSaveToStorage params"
    using w that by (simp add: update_def setItem_def Let_def split: prod.splits)
qed

text \<open>
  When the slot reads as a truthy value, the value of the render is that value.
\<close>

lemma useSharedState_truthy_slot:
  "is_truthy (js_get (read (manager w)) (key params)) \<Longrightarrow>
     fst (useSharedState params memo w) = js_get (read (manager w)) (key params)"
  by (simp add: useSharedState_value)

text \<open>
  \<^verbatim>\<open>clear\<close> writes the initial value of the render that created it.
\<close>

lemma clear_writes_initialValue:
  assumes "key params \<notin> set object_prototype_names"
  shows "js_get (read (manager (snd (snd (snd (clear params c w)))))) (key params)
           = Plain (initialValue params)"
  using assms not_member_not_proto [OF assms]
  by (simp add: clear_def update_plain read_def js_get_js_set)

lemma reload_after_update:
  assumes "shouldSaveToStorage params" and "shouldSaveToStorage params'"
    and "key params' = key params"
    and "key params \<notin> set object_prototype_names"
    and "prefix (storage c) = None"
    and "truthy v" and "to_json v = Some j"
    and "decode (runtime w) (encode (runtime w) j) = Some j"
    and "encode (runtime w) j \<noteq> []"
    and "update params c (Value v) w = (trace, thrown, c', w')"
  shows "thrown = None
     \<and> fst (useSharedState params' None (reload w'))
         = Plain (copy_at (Id (nextObject (runtime w'))) v)"
proof -
  let ?text = "encode (runtime w) j"
  have k: "key params \<noteq> ''__proto__''"
    using assms(4) by (rule not_member_not_proto)
  have thrown: "thrown = None"
    using update_plain(1) [OF assms(4), of c v w] assms(10) by simp
  have rt: "runtime w' = storage_setItem (runtime w) (key params) (Some ?text)"
    using update_plain(3) [OF assms(4) assms(1), of c v w] assms(5,7,10)
    by (simp add: getStorageKey_def JSON_stringify_def)
  have item: "storage_getItem (runtime w') (key params) = Text ?text"
    using k by (simp add: rt storage_getItem_setItem)
  have parse: "JSON_parse (runtime w') ?text =
      Some (copy_at (Id (nextObject (runtime w'))) v,
            if is_object v then (runtime w')\<lparr>nextObject := Suc (nextObject (runtime w'))\<rparr>
            else runtime w')"
    using assms(8) by (simp add: JSON_parse_def rt from_json_to_json [OF assms(7)])
  have "fst (getItem (runtime w') (new_StorageAdaptor None) (key params)) =
      Plain (copy_at (Id (nextObject (runtime w'))) v)"
    using parse assms(9) item assms(4)
    by (simp add: getItem_def new_StorageAdaptor_def getStorageKey_def js_get_new_dict)
  then have "fst (useSharedState params' None (reload w'))
         = Plain (copy_at (Id (nextObject (runtime w'))) v)"
    using assms(2,3,4,6)
    by (simp add: useSharedState_value reload_def read_def new_StateManager_def js_get_new_dict)
  with thrown show ?thesis by simp
qed

lemma open_plain [simp]: "''open'' \<notin> set object_prototype_names"
  and n_plain [simp]: "''n'' \<notin> set object_prototype_names"
  by (simp_all add: object_prototype_names_def)

lemma first_render_eq:
  "k \<notin> set object_prototype_names \<Longrightarrow>
   first_render \<lparr>key = k, initialValue = i, shouldSaveToStorage = s\<rparr> =
     (\<lparr>fixedInitialValue = i, storage = new_StorageAdaptor None\<rparr>,
      \<lparr>manager = new_StateManager, runtime = browser\<rparr>)"
  by (simp add: first_render_def useSharedState_def getItem_def getStorageKey_def
      new_StorageAdaptor_def js_get_new_dict storage_getItem_def browser_def Let_def)

lemma after_setValue_flag:
  "after_setValue flag_params (Boolean False) =
     (\<lparr>fixedInitialValue = Boolean True, storage = new_StorageAdaptor None\<rparr>,
      \<lparr>manager = \<lparr>state = \<lparr>own = [''open'' \<mapsto> Boolean False], proto = Object_prototype\<rparr>,
                  rerendersToTrigger = Map.empty\<rparr>,
       runtime = browser\<rparr>)"
  by (simp add: after_setValue_def flag_params_def first_render_eq hook_defs js_set_own
      new_dict_def Let_def)

lemma clear_after_rerender_eq:
  "clear_after_rerender =
     (\<lparr>fixedInitialValue = Number 1, storage = new_StorageAdaptor None\<rparr>,
      \<lparr>manager = \<lparr>state = \<lparr>own = [''n'' \<mapsto> Number 2], proto = Object_prototype\<rparr>,
                  rerendersToTrigger = Map.empty\<rparr>,
       runtime = browser\<rparr>)"
  by (simp add: clear_after_rerender_def counter_params_def first_render_eq hook_defs js_set_own
      new_dict_def js_get_new_dict Let_def)

text \<open>
  Claim C3 fails on the code for a slot that holds a falsy value. A consumer with initial
  value \<^verbatim>\<open>true\<close> and no persistence calls \<^verbatim>\<open>setValue(false)\<close>: the slot holds \<^verbatim>\<open>false\<close>, and the
  next render's value is \<^verbatim>\<open>true\<close>, since \<^verbatim>\<open>||\<close> skips a falsy slot value.
\<close>

theorem falsy_slot_value_ignored:
  "own (read (manager (snd (after_setValue flag_params (Boolean False))))) ''open''
     = Some (Boolean False)
   \<and> js_get (read (manager (snd (after_setValue flag_params (Boolean False))))) ''open''
     = Plain (Boolean False)
   \<and> fst (useSharedState flag_params (Some (fst (after_setValue flag_params (Boolean False))))
          (snd (after_setValue flag_params (Boolean False)))) = Plain (Boolean True)"
  by (simp only: after_setValue_flag)
     (simp add: flag_params_def hook_defs js_get_def)

text \<open>
  Claim C4 fails on the code when a later render supplies another initial value. The
  consumer first renders with initial value 1 and then with initial value 2; \<^verbatim>\<open>clear()\<close> of
  the later render writes 2, the later render's parameter, not the captured 1, and the
  next render's value is 2.
\<close>

theorem clear_writes_latest_initialValue:
  "fixedInitialValue (fst clear_after_rerender) = Number 1
   \<and> own (read (manager (snd clear_after_rerender))) ''n'' = Some (Number 2)
   \<and> js_get (read (manager (snd clear_after_rerender))) ''n'' = Plain (Number 2)
   \<and> fst (useSharedState (counter_params 2) (Some (fst clear_after_rerender))
          (snd clear_after_rerender)) = Plain (Number 2)"
  by (simp only: clear_after_rerender_eq)
     (simp add: counter_params_def hook_defs js_get_def)

text \<open>
  Claim C5, as the code has it. With persistence enabled, for a key that names no member
  of \<^verbatim>\<open>Object.prototype\<close> and a truthy value \<open>v\<close> whose JSON text is not empty and decodes back
  to the content of \<open>v\<close>: \<^verbatim>\<open>setValue(v)\<close> returns normally, and after a reload the first
  render of a new consumer of the same key, with persistence enabled, has the value \<open>v\<close>
  when \<open>v\<close> is primitive, and a newly decoded array or object with the content of \<open>v\<close>
  otherwise, whatever its initial value. The adaptor of the consumer that sets the value
  has no prefix, as every adaptor the hook creates.
\<close>

theorem setValue_survives_reload:
  assumes "shouldSaveToStorage params" and "shouldSaveToStorage params'"
    and "key params' = key params"
    and "key params \<notin> set object_prototype_names"
    and "prefix (storage c) = None"
    and "truthy v" and "to_json v = Some j"
    and "decode (runtime w) (encode (runtime w) j) = Some j"
    and "encode (runtime w) j \<noteq> []"
    and "update params c (Value v) w = (trace, thrown, c', w')"
  shows "thrown = None
     \<and> fst (useSharedState params' None (reload w'))
         = Plain (copy_at (Id (nextObject (runtime w'))) v)"
  using assms by (rule reload_after_update)

lemma set_then_reload_unfold:
  assumes "k \<notin> set object_prototype_names"
    and "update (persisted_params k)
           \<lparr>fixedInitialValue = Number 5, storage = new_StorageAdaptor None\<rparr> (Value v)
           \<lparr>manager = new_StateManager, runtime = browser\<rparr> = (trace, thrown, c', w')"
  shows "set_then_reload k v = fst (useSharedState (persisted_params k) None (reload w'))"
  using assms
  by (simp add: set_then_reload_def after_setValue_def persisted_params_def first_render_eq)

text \<open>
  A consumer of \<^verbatim>\<open>k\<close> with initial value 5 and persistence calls \<^verbatim>\<open>setValue\<close> with an object;
  after a reload the value is a new object, at identity 0, with the same content.
\<close>

theorem setValue_survives_reload_witness:
  "shouldSaveToStorage (persisted_params ''k'')
   \<and> ''k'' \<notin> set object_prototype_names
   \<and> truthy (Object (Id 7) [(''a'', JNum 1)])
   \<and> set_then_reload ''k'' (Object (Id 7) [(''a'', JNum 1)]) = Plain (Object (Id 0) [(''a'', JNum 1)])"
proof -
  let ?c = "\<lparr>fixedInitialValue = Number 5, storage = new_StorageAdaptor None\<rparr>"
  let ?w = "\<lparr>manager = new_StateManager, runtime = browser\<rparr>"
  let ?v = "Object (Id 7) [(''a'', JNum 1)]" and ?j = "JObj [(''a'', JNum 1)]"
  obtain trace thrown c' w' where
    u: "update (persisted_params ''k'') ?c (Value ?v) ?w = (trace, thrown, c', w')"
    by (cases "update (persisted_params ''k'') ?c (Value ?v) ?w") auto
  have s: "shouldSaveToStorage (persisted_params ''k'')"
    and kk: "key (persisted_params ''k'') \<notin> set object_prototype_names"
    by (simp_all add: persisted_params_def)
  have p: "prefix (storage ?c) = None"
    by (simp add: new_StorageAdaptor_def)
  have t: "truthy ?v" and j: "to_json ?v = Some ?j"
    by simp_all
  have r: "decode (runtime ?w) (encode (runtime ?w) ?j) = Some ?j"
    and n: "encode (runtime ?w) ?j \<noteq> []"
    by (simp_all add: browser_def json_decode_encode json_encode_nonempty
        del: json_encode.simps)
  have "nextObject (runtime w') = 0"
    using update_plain(3) [OF kk s, of ?c ?v ?w] u by (simp add: browser_def)
  with setValue_survives_reload [OF s s refl kk p t j r n u]
  have "fst (useSharedState (persisted_params ''k'') None (reload w'))
          = Plain (Object (Id 0) [(''a'', JNum 1)])"
    by simp
  with set_then_reload_unfold [OF k_plain u]
  have "set_then_reload ''k'' ?v = Plain (Object (Id 0) [(''a'', JNum 1)])"
    by simp
  with s t show ?thesis by simp
qed

text \<open>
  With the concrete codec the round trip holds for every document, so in the run of
  \<open>set_then_reload\<close> every truthy value comes back, an array or object at identity 0.
\<close>

lemma set_then_reload_truthy:
  assumes "truthy v" and "k \<notin> set object_prototype_names"
  shows "set_then_reload k v = Plain (copy_at (Id 0) v)"
proof -
  let ?c = "\<lparr>fixedInitialValue = Number 5, storage = new_StorageAdaptor None\<rparr>"
  let ?w = "\<lparr>manager = new_StateManager, runtime = browser\<rparr>"
  obtain trace thrown c' w' where
    u: "update (persisted_params k) ?c (Value v) ?w = (trace, thrown, c', w')"
    by (cases "update (persisted_params k) ?c (Value v) ?w") auto
  obtain j where j: "to_json v = Some j"
    using assms(1) by (cases v) simp_all
  have s: "shouldSaveToStorage (persisted_params k)"
    and kk: "key (persisted_params k) \<notin> set object_prototype_names"
    using assms(2) by (simp_all add: persisted_params_def)
  have p: "prefix (storage ?c) = None"
    by (simp add: new_StorageAdaptor_def)
  have r: "decode (runtime ?w) (encode (runtime ?w) j) = Some j"
    and n: "encode (runtime ?w) j \<noteq> []"
    by (simp_all add: browser_def json_decode_encode json_encode_nonempty
        del: json_encode.simps)
  have "nextObject (runtime w') = 0"
    using update_plain(3) [OF kk s, of ?c v ?w] u by (simp add: browser_def)
  with reload_after_update [OF s s refl kk p assms(1) j r n u]
  have "fst (useSharedState (persisted_params k) None (reload w')) = Plain (copy_at (Id 0) v)"
    by simp
  with set_then_reload_unfold [OF assms(2) u] show ?thesis by simp
qed

lemma set_then_reload_k:
  "set_then_reload ''k'' v =
     fst (useSharedState (persisted_params ''k'') None
            (reload (snd (snd (snd (update (persisted_params ''k'')
               \<lparr>fixedInitialValue = Number 5, storage = new_StorageAdaptor None\<rparr> (Value v)
               \<lparr>manager = new_StateManager, runtime = browser\<rparr>))))))"
  by (simp add: set_then_reload_def after_setValue_def persisted_params_def first_render_eq)

text \<open>
  Claim C5 as stated fails for \<^verbatim>\<open>undefined\<close> and for \<^verbatim>\<open>null\<close>, and at a key that names a member
  of \<^verbatim>\<open>Object.prototype\<close>: after \<^verbatim>\<open>setValue\<close> of either and a reload, the value is the initial
  value 5, and for the key \<^verbatim>\<open>toString\<close> the value after \<^verbatim>\<open>setValue(7)\<close> and a reload is the
  function \<^verbatim>\<open>Object.prototype.toString\<close>.
\<close>

theorem setValue_reload_counterexample:
  "set_then_reload ''k'' Undefined = Plain (Number 5)
   \<and> set_then_reload ''k'' Null = Plain (Number 5)
   \<and> set_then_reload ''toString'' (Number 7) = Member ''Object.prototype.toString''"
proof (intro conjI)
  show "set_then_reload ''k'' Undefined = Plain (Number 5)"
    by (simp only: set_then_reload_k)
       (simp add: persisted_params_def hook_defs storage_defs browser_def
          json_decode_undefined object_prototype_names_def)
  show "set_then_reload ''k'' Null = Plain (Number 5)"
    by (simp only: set_then_reload_k)
       (simp add: persisted_params_def hook_defs storage_defs browser_def
          json_decode_null object_prototype_names_def)
  show "set_then_reload ''toString'' (Number 7) = Member ''Object.prototype.toString''"
    by (simp add: set_then_reload_def useSharedState_value persisted_params_def reload_def
        read_def new_StateManager_def js_get_def new_dict_def object_prototype_get_def
        object_prototype_names_def)
qed

end
